theory Spec2Isabelle
  imports Complex_Main "HOL-Library.AList"
begin

section \<open>JavaScript numbers\<close>

text \<open>
  The server (\<^verbatim>\<open>src/multiplayerServer.js\<close>, class \<^verbatim>\<open>MultiplayerServer\<close>) computes with
  JavaScript numbers, which are IEEE 754 doubles. \<open>fround\<close> rounds a real to the nearest
  double, ties to the even significand: a double is \<open>m * 2\<^sup>e\<close> with an integer
  \<open>|m| < 2\<^sup>5\<^sup>3\<close>, and in the binade of \<open>x\<close> two neighbouring doubles are \<open>ulp x\<close> apart.
  The exponent is not bounded here: overflow to an infinity and the subnormal numbers are
  not modelled.
\<close>

definition roundEven :: "real \<Rightarrow> int" where
  "roundEven y =
     (if y - of_int \<lfloor>y\<rfloor> < 1/2 then \<lfloor>y\<rfloor>
      else if y - of_int \<lfloor>y\<rfloor> > 1/2 then \<lfloor>y\<rfloor> + 1
      else if even \<lfloor>y\<rfloor> then \<lfloor>y\<rfloor> else \<lfloor>y\<rfloor> + 1)"

definition ulp :: "real \<Rightarrow> real" where
  "ulp x = 2 powr (of_int \<lfloor>log 2 \<bar>x\<bar>\<rfloor> - 52)"

definition fround :: "real \<Rightarrow> real" where
  "fround x = (if x = 0 then 0 else ulp x * of_int (roundEven (x / ulp x)))"

text \<open>
  A number is a finite value or \<^verbatim>\<open>NaN\<close>. Each arithmetic operation rounds its exact
  result, propagates \<^verbatim>\<open>NaN\<close>, and every comparison with \<^verbatim>\<open>NaN\<close> is false.
\<close>

datatype jsnum = NaN | Fin real

text \<open>A decimal literal of the source denotes the nearest double.\<close>

definition lit :: "real \<Rightarrow> jsnum" where
  "lit x = Fin (fround x)"

instantiation jsnum :: "{plus, minus, times, inverse, abs, ord}"
begin

fun plus_jsnum :: "jsnum \<Rightarrow> jsnum \<Rightarrow> jsnum" where
  "plus_jsnum (Fin a) (Fin b) = Fin (fround (a + b))"
| "plus_jsnum _ _ = NaN"

fun minus_jsnum :: "jsnum \<Rightarrow> jsnum \<Rightarrow> jsnum" where
  "minus_jsnum (Fin a) (Fin b) = Fin (fround (a - b))"
| "minus_jsnum _ _ = NaN"

fun times_jsnum :: "jsnum \<Rightarrow> jsnum \<Rightarrow> jsnum" where
  "times_jsnum (Fin a) (Fin b) = Fin (fround (a * b))"
| "times_jsnum _ _ = NaN"

text \<open>Division by zero (an infinity or \<^verbatim>\<open>NaN\<close> in JavaScript) is read as \<^verbatim>\<open>NaN\<close>.\<close>

fun divide_jsnum :: "jsnum \<Rightarrow> jsnum \<Rightarrow> jsnum" where
  "divide_jsnum (Fin a) (Fin b) = (if b = 0 then NaN else Fin (fround (a / b)))"
| "divide_jsnum _ _ = NaN"

fun inverse_jsnum :: "jsnum \<Rightarrow> jsnum" where
  "inverse_jsnum (Fin a) = (if a = 0 then NaN else Fin (fround (1 / a)))"
| "inverse_jsnum NaN = NaN"

fun abs_jsnum :: "jsnum \<Rightarrow> jsnum" where
  "abs_jsnum (Fin a) = Fin \<bar>a\<bar>"
| "abs_jsnum NaN = NaN"

fun less_jsnum :: "jsnum \<Rightarrow> jsnum \<Rightarrow> bool" where
  "less_jsnum (Fin a) (Fin b) = (a < b)"
| "less_jsnum _ _ = False"

fun less_eq_jsnum :: "jsnum \<Rightarrow> jsnum \<Rightarrow> bool" where
  "less_eq_jsnum (Fin a) (Fin b) = (a \<le> b)"
| "less_eq_jsnum _ _ = False"

instance ..

end

text \<open>
  \<^verbatim>\<open>Math.sqrt\<close>, and \<^verbatim>\<open>v ** 2\<close> read as the rounded product of \<^verbatim>\<open>v\<close> with itself.
\<close>

fun jsqrt :: "jsnum \<Rightarrow> jsnum" where
  "jsqrt (Fin a) = (if a < 0 then NaN else Fin (fround (sqrt a)))"
| "jsqrt NaN = NaN"

fun jsquare :: "jsnum \<Rightarrow> jsnum" where
  "jsquare (Fin a) = Fin (fround (a * a))"
| "jsquare NaN = NaN"

section \<open>JavaScript values\<close>

text \<open>
  A value a client can send: the payload of a socket message. The fields of an object
  are an association list (the first binding of a name is the property).
\<close>

datatype jsval =
    JUndefined
  | JNull
  | JBool bool
  | JNum jsnum
  | JStr string
  | JObj "(string \<times> jsval) list"

text \<open>\<^verbatim>\<open>!v\<close> is \<open>\<not> truthy v\<close>.\<close>

fun truthy :: "jsval \<Rightarrow> bool" where
  "truthy JUndefined = False"
| "truthy JNull = False"
| "truthy (JBool b) = b"
| "truthy (JNum NaN) = False"
| "truthy (JNum (Fin a)) = (a \<noteq> 0)"
| "truthy (JStr s) = (s \<noteq> [])"
| "truthy (JObj fs) = True"

fun typeof :: "jsval \<Rightarrow> string" where
  "typeof JUndefined = ''undefined''"
| "typeof JNull = ''object''"
| "typeof (JBool b) = ''boolean''"
| "typeof (JNum n) = ''number''"
| "typeof (JStr s) = ''string''"
| "typeof (JObj fs) = ''object''"

text \<open>
  Property access \<^verbatim>\<open>v.k\<close> on a truthy value (on \<^verbatim>\<open>undefined\<close> and \<^verbatim>\<open>null\<close> it throws;
  the server reads a property only behind a truthiness test). A primitive has none of the
  properties the server reads.
\<close>

fun getProp :: "jsval \<Rightarrow> string \<Rightarrow> jsval" where
  "getProp (JObj fs) k = (case map_of fs k of Some v \<Rightarrow> v | None \<Rightarrow> JUndefined)"
| "getProp _ k = JUndefined"

text \<open>
  Reading a value as a number in arithmetic. A number is itself and a missing property
  is \<^verbatim>\<open>NaN\<close>; the coercion of the other kinds of value is not modelled (read as
  \<^verbatim>\<open>NaN\<close>).
\<close>

fun toNumber :: "jsval \<Rightarrow> jsnum" where
  "toNumber (JNum n) = n"
| "toNumber _ = NaN"

section \<open>Input validation\<close>

text \<open>
  \<^verbatim>\<open>isValidPosition(position)\<close>:
  \<^verbatim>\<open>
  if (!position || typeof position.x !== 'number' || typeof position.z !== 'number') return false;
  if (Math.abs(position.x) > 1000 || Math.abs(position.z) > 1000) return false;
  return true;
  \<close>
\<close>

definition isValidPosition :: "jsval \<Rightarrow> bool" where
  "isValidPosition position =
     (if \<not> truthy position
         \<or> typeof (getProp position ''x'') \<noteq> ''number''
         \<or> typeof (getProp position ''z'') \<noteq> ''number'' then False
      else if \<bar>toNumber (getProp position ''x'')\<bar> > Fin 1000
         \<or> \<bar>toNumber (getProp position ''z'')\<bar> > Fin 1000 then False
      else True)"

datatype vec3 = Vec3 (vec_x: jsnum) (vec_y: jsnum) (vec_z: jsnum)

datatype vec2 = Vec2 (vel_x: jsnum) (vel_z: jsnum)

text \<open>
  The anti-cheat block of \<^verbatim>\<open>handlePlayerUpdate\<close>, on a velocity that is present:
  \<^verbatim>\<open>
  const maxSpeed = 0.5;
  const speed = Math.sqrt(data.velocity.x ** 2 + data.velocity.z ** 2);
  if (speed > maxSpeed) {
      const factor = maxSpeed / speed;
      data.velocity.x *= factor;
      data.velocity.z *= factor;
  }
  \<close>
\<close>

definition horizontalSpeed :: "vec2 \<Rightarrow> jsnum" where
  "horizontalSpeed v = jsqrt (jsquare (vel_x v) + jsquare (vel_z v))"

definition clampVelocity :: "vec2 \<Rightarrow> vec2" where
  "clampVelocity v =
     (let maxSpeed = Fin 0.5;
          speed = horizontalSpeed v
      in if speed > maxSpeed then
           (let factor = maxSpeed / speed
            in Vec2 (vel_x v * factor) (vel_z v * factor))
         else v)"

section \<open>World state\<close>

type_synonym sid = string

text \<open>
  A bullet's key is \<^verbatim>\<open>`${socket.id}_${Date.now()}_${Math.random()}`\<close>: the three parts
  of the template string are kept apart.
\<close>

datatype bulletId = BulletId sid int real

text \<open>
  The player object of \<^verbatim>\<open>initializePlayer\<close>. \<open>pid\<close> is its \<^verbatim>\<open>id\<close>;
  \<open>lastFireTime\<close> is \<open>None\<close> while the property is \<^verbatim>\<open>undefined\<close>
  (\<^verbatim>\<open>handlePlayerFire\<close> creates it).
\<close>

record player =
  pid :: sid
  position :: vec3
  rotation :: jsval
  velocity :: vec2
  health :: int
  maxHealth :: int
  ammo :: int
  totalAmmo :: int
  isReloading :: bool
  lastUpdate :: int
  name :: string
  kills :: int
  deaths :: int
  connected :: bool
  lastFireTime :: "int option"

record bullet =
  b_id :: bulletId
  playerId :: sid
  b_position :: vec3
  direction :: vec3
  speed :: jsnum
  damage :: int
  createdAt :: int
  lifetime :: int

text \<open>The reduced records of \<^verbatim>\<open>sendClientUpdates\<close>.\<close>

record playerData =
  pd_id :: sid
  pd_position :: vec3
  pd_rotation :: jsval
  pd_velocity :: vec2
  pd_health :: int
  pd_maxHealth :: int
  pd_name :: string
  pd_kills :: int
  pd_deaths :: int

record bulletData =
  bd_id :: bulletId
  bd_position :: vec3
  bd_direction :: vec3

text \<open>
  What the server publishes: \<^verbatim>\<open>socket.emit\<close> (to one socket),
  \<^verbatim>\<open>socket.broadcast.emit\<close> (to every socket but one), \<^verbatim>\<open>io.to(id).emit\<close> (to the
  room of an id) and \<^verbatim>\<open>io.emit\<close> (to all).
\<close>

datatype target = ToSocket sid | Others sid | Room sid | Everyone

datatype message =
    GameInit sid "player list" int int
  | PlayerJoined player
  | PlayerFired sid bulletId vec3 vec3 int
  | ReloadComplete int int
  | PlayerHit sid sid int int bulletId
  | PlayerKilled sid sid string string
  | PlayerRespawned sid vec3 int
  | BulletExpired bulletId
  | GameUpdate "playerData list" "bulletData list" int
  | PlayerLeft sid

text \<open>
  A pending \<^verbatim>\<open>setTimeout\<close> callback. The closure of \<^verbatim>\<open>startReload\<close> and the one of
  \<^verbatim>\<open>handlePlayerHit\<close> hold the player object itself, here its address.
\<close>

datatype timer = ReloadTimer nat | RespawnTimer nat

fun timerDelay :: "timer \<Rightarrow> int" where
  "timerDelay (ReloadTimer r) = 2000"
| "timerDelay (RespawnTimer r) = 3000"

text \<open>
  The server. Player objects live in \<open>heap\<close>, at the index that is their address;
  \<open>players\<close> is \<^verbatim>\<open>this.players\<close>, a \<^verbatim>\<open>Map\<close> from socket id to player object, in
  insertion order; \<open>bullets\<close> is \<^verbatim>\<open>this.bullets\<close>; \<open>tick\<close> and \<open>gsLastUpdate\<close> are
  \<^verbatim>\<open>this.gameState\<close>; \<open>timers\<close> are the callbacks not yet run; \<open>outbox\<close> is every
  message published so far, oldest first.
\<close>

record server =
  heap :: "player list"
  players :: "(sid \<times> nat) list"
  bullets :: "(bulletId \<times> bullet) list"
  tick :: int
  gsLastUpdate :: int
  timers :: "timer list"
  outbox :: "(target \<times> message) list"

definition TICK_RATE :: int where "TICK_RATE = 60"
definition CLIENT_UPDATE_RATE :: int where "CLIENT_UPDATE_RATE = 20"
definition BULLET_CLEANUP_INTERVAL :: int where "BULLET_CLEANUP_INTERVAL = 5000"
definition MAX_BULLETS :: nat where "MAX_BULLETS = 500"

text \<open>The constructor, at clock \<open>now\<close>.\<close>

definition initial :: "int \<Rightarrow> server" where
  "initial now =
     \<lparr>heap = [], players = [], bullets = [], tick = 0, gsLastUpdate = now,
      timers = [], outbox = []\<rparr>"

definition emit :: "target \<Rightarrow> message \<Rightarrow> server \<Rightarrow> server" where
  "emit t m s = s\<lparr>outbox := outbox s @ [(t, m)]\<rparr>"

text \<open>Assignment to the fields of the object at an address.\<close>

definition modify :: "nat \<Rightarrow> (player \<Rightarrow> player) \<Rightarrow> server \<Rightarrow> server" where
  "modify r f s = s\<lparr>heap := (heap s)[r := f (heap s ! r)]\<rparr>"

text \<open>\<^verbatim>\<open>this.players.get(id)\<close>: the address of the player object, if any.\<close>

definition getPlayer :: "server \<Rightarrow> sid \<Rightarrow> nat option" where
  "getPlayer s i = map_of (players s) i"

section \<open>Connection and input handlers\<close>

definition initializePlayer :: "sid \<Rightarrow> int \<Rightarrow> server \<Rightarrow> server" where
  "initializePlayer socket now s =
     (let player = \<lparr>pid = socket,
                     position = Vec3 (Fin 0) (lit 1.8) (Fin 0),
                     rotation = JObj [(''x'', JNum (Fin 0)), (''y'', JNum (Fin 0)), (''z'', JNum (Fin 0))],
                     velocity = Vec2 (Fin 0) (Fin 0),
                     health = 100,
                     maxHealth = 100,
                     ammo = 30,
                     totalAmmo = 120,
                     isReloading = False,
                     lastUpdate = now,
                     name = ''Player_'' @ take 6 socket,
                     kills = 0,
                     deaths = 0,
                     connected = True,
                     lastFireTime = None\<rparr>;
          r = length (heap s);
          s1 = s\<lparr>heap := heap s @ [player], players := AList.update socket r (players s)\<rparr>;
          s2 = emit (ToSocket socket)
                 (GameInit socket (map (\<lambda>(k, a). heap s1 ! a) (players s1)) (tick s1) (gsLastUpdate s1)) s1
      in emit (Others socket) (PlayerJoined player) s2)"

text \<open>
  The payload of \<^verbatim>\<open>player-update\<close>: an object with a position (any value), a rotation
  and, when \<^verbatim>\<open>data.velocity\<close> is truthy, a velocity. The stored position is read as three
  numbers.
\<close>

record updateData =
  u_position :: jsval
  u_rotation :: jsval
  u_velocity :: "vec2 option"

definition toVec3 :: "jsval \<Rightarrow> vec3" where
  "toVec3 v = Vec3 (toNumber (getProp v ''x'')) (toNumber (getProp v ''y'')) (toNumber (getProp v ''z''))"

definition handlePlayerUpdate :: "sid \<Rightarrow> updateData \<Rightarrow> int \<Rightarrow> server \<Rightarrow> server" where
  "handlePlayerUpdate socket data now s =
     (case getPlayer s socket of
        None \<Rightarrow> s
      | Some r \<Rightarrow>
          if \<not> isValidPosition (u_position data) then s
          else
            (let vel = map_option clampVelocity (u_velocity data)
             in modify r (\<lambda>player. player\<lparr>
                    position := toVec3 (u_position data),
                    rotation := u_rotation data,
                    velocity := (case vel of Some v \<Rightarrow> v | None \<Rightarrow> Vec2 (Fin 0) (Fin 0)),
                    lastUpdate := now\<rparr>) s))"

text \<open>\<^verbatim>\<open>startReload(player)\<close>: sets the flag and schedules the completion.\<close>

definition startReload :: "nat \<Rightarrow> server \<Rightarrow> server" where
  "startReload r s =
     (modify r (\<lambda>player. player\<lparr>isReloading := True\<rparr>) s)\<lparr>timers := timers s @ [ReloadTimer r]\<rparr>"

text \<open>The callback of \<^verbatim>\<open>startReload\<close>, run on the captured player object.\<close>

definition reloadComplete :: "nat \<Rightarrow> server \<Rightarrow> server" where
  "reloadComplete r s =
     (let player = heap s ! r;
          ammoNeeded = 30 - ammo player;
          ammoToReload = min ammoNeeded (totalAmmo player);
          s1 = modify r (\<lambda>p. p\<lparr>ammo := ammo p + ammoToReload,
                                 totalAmmo := totalAmmo p - ammoToReload,
                                 isReloading := False\<rparr>) s
      in emit (Room (pid (heap s1 ! r)))
           (ReloadComplete (ammo (heap s1 ! r)) (totalAmmo (heap s1 ! r))) s1)"

text \<open>
  The payload of \<^verbatim>\<open>player-fire\<close>: an object with a position and a direction (a missing
  coordinate is \<^verbatim>\<open>NaN\<close> in every later computation).
\<close>

record fireData =
  f_position :: vec3
  f_direction :: vec3

text \<open>
  The block \<^verbatim>\<open>// Limitar n\'umero de balas\<close> of \<^verbatim>\<open>handlePlayerFire\<close>, on the entries of
  \<^verbatim>\<open>this.bullets\<close>:
  \<^verbatim>\<open>
  if (this.bullets.size > this.MAX_BULLETS) {
      const oldestBullet = Array.from(this.bullets.entries())
          .sort((a, b) => a[1].createdAt - b[1].createdAt)[0];
      this.bullets.delete(oldestBullet[0]);
  }
  \<close>
  \<^verbatim>\<open>Array.prototype.sort\<close> is stable, as \<open>sort_key\<close> is; the sorted array has more than
  \<open>MAX_BULLETS\<close> entries, so it is not empty.
\<close>

definition limitBullets :: "(bulletId \<times> bullet) list \<Rightarrow> (bulletId \<times> bullet) list" where
  "limitBullets bs =
     (if length bs > MAX_BULLETS then
        (case sort_key (\<lambda>e. createdAt (snd e)) bs of
           oldestBullet # rest \<Rightarrow> AList.delete (fst oldestBullet) bs
         | [] \<Rightarrow> bs)
      else bs)"

text \<open>
  The bullet object \<^verbatim>\<open>handlePlayerFire\<close> creates (\<^verbatim>\<open>// Criar bala\<close>), with its key as
  \<^verbatim>\<open>id\<close> and shallow copies of the payload's position and direction.
\<close>

definition newBullet :: "sid \<Rightarrow> fireData \<Rightarrow> int \<Rightarrow> int \<Rightarrow> real \<Rightarrow> bullet" where
  "newBullet socket data now idTime rnd =
     \<lparr>b_id = BulletId socket idTime rnd,
      playerId = socket,
      b_position = f_position data,
      direction = f_direction data,
      speed = Fin 50,
      damage = 25,
      createdAt = now,
      lifetime = 3000\<rparr>"

text \<open>
  \<^verbatim>\<open>handlePlayerFire(socket, data)\<close>. \<open>now\<close> is the \<^verbatim>\<open>Date.now()\<close> of the rate limit,
  \<open>idTime\<close> the one of the bullet's key and \<open>rnd\<close> its \<^verbatim>\<open>Math.random()\<close>.
  \<^verbatim>\<open>!player.lastFireTime\<close> holds of \<^verbatim>\<open>undefined\<close> and of \<^verbatim>\<open>0\<close>.
\<close>

definition handlePlayerFire :: "sid \<Rightarrow> fireData \<Rightarrow> int \<Rightarrow> int \<Rightarrow> real \<Rightarrow> server \<Rightarrow> server" where
  "handlePlayerFire socket data now idTime rnd s =
     (case getPlayer s socket of
        None \<Rightarrow> s
      | Some r \<Rightarrow>
          if health (heap s ! r) \<le> 0 \<or> isReloading (heap s ! r) \<or> ammo (heap s ! r) \<le> 0 then s
          else
            (let s1 = (if lastFireTime (heap s ! r) = None \<or> lastFireTime (heap s ! r) = Some 0
                       then modify r (\<lambda>p. p\<lparr>lastFireTime := Some 0\<rparr>) s else s)
             in if now - the (lastFireTime (heap s1 ! r)) < 100 then s1
                else
                  (let s2 = modify r (\<lambda>p. p\<lparr>lastFireTime := Some now\<rparr>) s1;
                       s3 = modify r (\<lambda>p. p\<lparr>ammo := ammo p - 1\<rparr>) s2;
                       s4 = (if ammo (heap s3 ! r) \<le> 0 \<and> totalAmmo (heap s3 ! r) > 0
                             then startReload r s3 else s3);
                       bulletId = BulletId socket idTime rnd;
                       bullet = newBullet socket data now idTime rnd;
                       s5 = s4\<lparr>bullets := AList.update bulletId bullet (bullets s4)\<rparr>;
                       s6 = s5\<lparr>bullets := limitBullets (bullets s5)\<rparr>
                   in emit Everyone
                        (PlayerFired socket bulletId (b_position bullet) (direction bullet)
                           (ammo (heap s6 ! r))) s6)))"

definition handlePlayerReload :: "sid \<Rightarrow> server \<Rightarrow> server" where
  "handlePlayerReload socket s =
     (case getPlayer s socket of
        None \<Rightarrow> s
      | Some r \<Rightarrow>
          if isReloading (heap s ! r) \<or> totalAmmo (heap s ! r) \<le> 0 \<or> ammo (heap s ! r) \<ge> 30 then s
          else startReload r s)"

text \<open>
  \<^verbatim>\<open>handleDisconnect(socket)\<close>: the loop deletes the bullets whose \<^verbatim>\<open>playerId\<close> is the
  socket's id.
\<close>

definition handleDisconnect :: "sid \<Rightarrow> server \<Rightarrow> server" where
  "handleDisconnect socket s =
     (case getPlayer s socket of
        None \<Rightarrow> s
      | Some r \<Rightarrow>
          emit (Others socket) (PlayerLeft socket)
            (s\<lparr>bullets := filter (\<lambda>(bulletId, bullet). playerId bullet \<noteq> socket) (bullets s),
               players := AList.delete socket (players s)\<rparr>))"

section \<open>The simulation tick\<close>

text \<open>
  The body of the loop of \<^verbatim>\<open>updateBullets\<close> on one bullet, with
  \<^verbatim>\<open>const deltaTime = 0.016; // ~60fps\<close>.
\<close>

definition deltaTime :: jsnum where
  "deltaTime = lit 0.016"

definition moveBullet :: "bullet \<Rightarrow> bullet" where
  "moveBullet b =
     b\<lparr>b_position :=
         Vec3 (vec_x (b_position b) + vec_x (direction b) * speed b * deltaTime)
              (vec_y (b_position b) + vec_y (direction b) * speed b * deltaTime)
              (vec_z (b_position b) + vec_z (direction b) * speed b * deltaTime)\<rparr>"

definition expired :: "int \<Rightarrow> bullet \<Rightarrow> bool" where
  "expired now b = (now - createdAt b > lifetime b)"

text \<open>
  The loop of \<^verbatim>\<open>updateBullets(now)\<close> over the entries of the map: the bullets that
  stay, moved, and the keys of the deleted ones, in order (deleting the current entry of a
  \<^verbatim>\<open>Map\<close> does not disturb its iteration).
\<close>

fun updateBulletList :: "int \<Rightarrow> (bulletId \<times> bullet) list \<Rightarrow> (bulletId \<times> bullet) list \<times> bulletId list" where
  "updateBulletList now [] = ([], [])"
| "updateBulletList now ((bulletId, b) # rest) =
     (let b' = moveBullet b;
          (kept, gone) = updateBulletList now rest
      in if expired now b' then (kept, bulletId # gone) else ((bulletId, b') # kept, gone))"

definition updateBullets :: "int \<Rightarrow> server \<Rightarrow> server" where
  "updateBullets now s =
     (let (kept, gone) = updateBulletList now (bullets s)
      in s\<lparr>bullets := kept,
           outbox := outbox s @ map (\<lambda>bulletId. (Everyone, BulletExpired bulletId)) gone\<rparr>)"

text \<open>
  \<^verbatim>\<open>handlePlayerHit(bullet, hitPlayer)\<close>, \<open>hit\<close> the address of \<^verbatim>\<open>hitPlayer\<close>. The
  shooter is looked up by id; the respawn is scheduled on the object that was hit.
\<close>

definition handlePlayerHit :: "bullet \<Rightarrow> nat \<Rightarrow> server \<Rightarrow> server" where
  "handlePlayerHit b hit s =
     (case getPlayer s (playerId b) of
        None \<Rightarrow> s
      | Some shooter \<Rightarrow>
          (let s1 = modify hit (\<lambda>p. p\<lparr>health := health p - damage b\<rparr>) s;
               s2 = emit Everyone
                      (PlayerHit (pid (heap s1 ! hit)) (pid (heap s1 ! shooter)) (damage b)
                         (health (heap s1 ! hit)) (b_id b)) s1
           in if health (heap s2 ! hit) \<le> 0 then
                (let s3 = modify hit (\<lambda>p. p\<lparr>deaths := deaths p + 1\<rparr>) s2;
                     s4 = modify shooter (\<lambda>p. p\<lparr>kills := kills p + 1\<rparr>) s3;
                     s5 = emit Everyone
                            (PlayerKilled (pid (heap s4 ! hit)) (pid (heap s4 ! shooter))
                               (name (heap s4 ! shooter)) (name (heap s4 ! hit))) s4
                 in s5\<lparr>timers := timers s5 @ [RespawnTimer hit]\<rparr>)
              else s2))"

text \<open>
  \<^verbatim>\<open>respawnPlayer(player)\<close>, the callback of the timer of \<^verbatim>\<open>handlePlayerHit\<close>;
  \<open>rx\<close> and \<open>rz\<close> are its two \<^verbatim>\<open>Math.random()\<close>.
\<close>

definition respawnPlayer :: "nat \<Rightarrow> real \<Rightarrow> real \<Rightarrow> server \<Rightarrow> server" where
  "respawnPlayer r rx rz s =
     (let s1 = modify r (\<lambda>p. p\<lparr>health := maxHealth p,
                                 ammo := 30,
                                 totalAmmo := 120,
                                 isReloading := False,
                                 position := Vec3 ((Fin rx - Fin 0.5) * Fin 50) (lit 1.8)
                                                  ((Fin rz - Fin 0.5) * Fin 50)\<rparr>) s
      in emit Everyone
           (PlayerRespawned (pid (heap s1 ! r)) (position (heap s1 ! r)) (health (heap s1 ! r))) s1)"

text \<open>The distance of \<^verbatim>\<open>checkBulletCollisions\<close>.\<close>

definition distance :: "vec3 \<Rightarrow> vec3 \<Rightarrow> jsnum" where
  "distance a b =
     jsqrt (jsquare (vec_x a - vec_x b) + jsquare (vec_y a - vec_y b) + jsquare (vec_z a - vec_z b))"

text \<open>
  The inner loop of \<^verbatim>\<open>checkBulletCollisions\<close> for one bullet, over the entries of
  \<^verbatim>\<open>this.players\<close> still to visit. The result says whether the loop left by
  \<^verbatim>\<open>break\<close>, after a hit.
\<close>

fun scanPlayers :: "bullet \<Rightarrow> (sid \<times> nat) list \<Rightarrow> server \<Rightarrow> server \<times> bool" where
  "scanPlayers b [] s = (s, False)"
| "scanPlayers b ((playerId', r) # rest) s =
     (if playerId b = playerId' \<or> health (heap s ! r) \<le> 0 then scanPlayers b rest s
      else if distance (b_position b) (position (heap s ! r)) < lit 0.8 then
        (handlePlayerHit b r s, True)
      else scanPlayers b rest s)"

text \<open>The outer loop, over the entries of \<^verbatim>\<open>this.bullets\<close> still to visit.\<close>

fun collideBullets :: "(bulletId \<times> bullet) list \<Rightarrow> server \<Rightarrow> server" where
  "collideBullets [] s = s"
| "collideBullets ((bulletId, b) # rest) s =
     (let (s1, hit) = scanPlayers b (players s) s;
          s2 = (if hit then s1\<lparr>bullets := AList.delete bulletId (bullets s1)\<rparr> else s1)
      in collideBullets rest s2)"

definition checkBulletCollisions :: "server \<Rightarrow> server" where
  "checkBulletCollisions s = collideBullets (bullets s) s"

text \<open>
  The loop of \<^verbatim>\<open>cleanupInactivePlayers(now)\<close>, with the threshold of
  \<^verbatim>\<open>multiplayerServer.js\<close> (60000; the copy of the class in \<^verbatim>\<open>index.js\<close> has 30000).
\<close>

fun cleanupPlayerList :: "int \<Rightarrow> (sid \<times> nat) list \<Rightarrow> server \<Rightarrow> server" where
  "cleanupPlayerList now [] s = s"
| "cleanupPlayerList now ((playerId', r) # rest) s =
     cleanupPlayerList now rest
       (if now - lastUpdate (heap s ! r) > 60000 then
          emit Everyone (PlayerLeft playerId') (s\<lparr>players := AList.delete playerId' (players s)\<rparr>)
        else s)"

definition cleanupInactivePlayers :: "int \<Rightarrow> server \<Rightarrow> server" where
  "cleanupInactivePlayers now s = cleanupPlayerList now (players s) s"

definition updateGameState :: "int \<Rightarrow> server \<Rightarrow> server" where
  "updateGameState now s =
     (let s1 = s\<lparr>tick := tick s + 1, gsLastUpdate := now\<rparr>;
          s2 = updateBullets now s1;
          s3 = checkBulletCollisions s2
      in cleanupInactivePlayers now s3)"

definition sendClientUpdates :: "server \<Rightarrow> server" where
  "sendClientUpdates s =
     (if length (players s) = 0 then s
      else
        (let playersData = map (\<lambda>(k, r). let player = heap s ! r in
                 \<lparr>pd_id = pid player, pd_position = position player, pd_rotation = rotation player,
                  pd_velocity = velocity player, pd_health = health player,
                  pd_maxHealth = maxHealth player, pd_name = name player,
                  pd_kills = kills player, pd_deaths = deaths player\<rparr>) (players s);
             bulletsData = map (\<lambda>(k, b).
                 \<lparr>bd_id = b_id b, bd_position = b_position b, bd_direction = direction b\<rparr>) (bullets s)
         in emit Everyone (GameUpdate playersData bulletsData (tick s)) s))"

text \<open>The body of the interval of \<^verbatim>\<open>startCleanupLoop\<close>.\<close>

definition cleanupBullets :: "int \<Rightarrow> server \<Rightarrow> server" where
  "cleanupBullets now s = s\<lparr>bullets := filter (\<lambda>(bulletId, b). \<not> expired now b) (bullets s)\<rparr>"

section \<open>The server as a transition system\<close>

text \<open>
  One input is one callback of the event loop: a socket event, a run of one of the three
  intervals, or a pending timer that fires (the \<open>i\<close>-th of \<open>timers\<close>). The clock values
  and the random numbers a callback reads come with the input. The order in which timers
  fire is left open.
\<close>

datatype input =
    Connect sid int
  | Update sid updateData int
  | Fire sid fireData int int real
  | Reload sid
  | Disconnect sid
  | Tick int
  | ClientUpdate
  | Cleanup int
  | TimerFires nat real real

definition fireTimer :: "nat \<Rightarrow> real \<Rightarrow> real \<Rightarrow> server \<Rightarrow> server" where
  "fireTimer i rx rz s =
     (if i < length (timers s) then
        (let s1 = s\<lparr>timers := take i (timers s) @ drop (Suc i) (timers s)\<rparr>
         in case timers s ! i of
              ReloadTimer r \<Rightarrow> reloadComplete r s1
            | RespawnTimer r \<Rightarrow> respawnPlayer r rx rz s1)
      else s)"

fun step :: "input \<Rightarrow> server \<Rightarrow> server" where
  "step (Connect socket now) s = initializePlayer socket now s"
| "step (Update socket data now) s = handlePlayerUpdate socket data now s"
| "step (Fire socket data now idTime rnd) s = handlePlayerFire socket data now idTime rnd s"
| "step (Reload socket) s = handlePlayerReload socket s"
| "step (Disconnect socket) s = handleDisconnect socket s"
| "step (Tick now) s = updateGameState now s"
| "step ClientUpdate s = sendClientUpdates s"
| "step (Cleanup now) s = cleanupBullets now s"
| "step (TimerFires i rx rz) s = fireTimer i rx rz s"

text \<open>The state after a sequence of inputs, from the constructor at clock \<open>t0\<close>.\<close>

definition run :: "int \<Rightarrow> input list \<Rightarrow> server" where
  "run t0 ins = foldl (\<lambda>s i. step i s) (initial t0) ins"

inductive reachable :: "server \<Rightarrow> bool" where
  reachable_initial: "reachable (initial t0)"
| reachable_step: "reachable s \<Longrightarrow> reachable (step i s)"

section \<open>Invariants of the reachable states\<close>

text \<open>
  A player object as the handlers leave it: health moves in steps of the bullet damage
  between 0 and the maximum.
\<close>

definition goodPlayer :: "player \<Rightarrow> bool" where
  "goodPlayer p = (health p \<in> {0, 25, 50, 75, 100} \<and> maxHealth p = 100)"

text \<open>A bullet as \<^verbatim>\<open>handlePlayerFire\<close> creates it, under its own key.\<close>

definition goodBullet :: "bulletId \<times> bullet \<Rightarrow> bool" where
  "goodBullet e =
     (b_id (snd e) = fst e \<and> speed (snd e) = Fin 50 \<and> damage (snd e) = 25 \<and> lifetime (snd e) = 3000)"

text \<open>A published hit reports a health that is not negative.\<close>

fun goodMessage :: "message \<Rightarrow> bool" where
  "goodMessage (PlayerHit hitPlayerId shooterId dmg newHealth bulletId) = (0 \<le> newHealth)"
| "goodMessage m = True"

fun timerRef :: "timer \<Rightarrow> nat" where
  "timerRef (ReloadTimer r) = r"
| "timerRef (RespawnTimer r) = r"

definition serverInv :: "server \<Rightarrow> bool" where
  "serverInv s =
     ((\<forall>p \<in> set (heap s). goodPlayer p)
      \<and> (\<forall>e \<in> set (players s). snd e < length (heap s) \<and> pid (heap s ! snd e) = fst e)
      \<and> distinct (map fst (players s))
      \<and> (\<forall>t \<in> set (timers s). timerRef t < length (heap s))
      \<and> (\<forall>e \<in> set (bullets s). goodBullet e)
      \<and> distinct (map fst (bullets s))
      \<and> (\<forall>e \<in> set (outbox s). goodMessage (snd e)))"

section \<open>Predicates of the claims\<close>

text \<open>
  The preconditions of a fire request: the player exists, is alive, is not reloading, has
  ammunition, and at least 100 ms have passed since the player's last fire, if there was
  one.
\<close>

definition mayFire :: "server \<Rightarrow> sid \<Rightarrow> int \<Rightarrow> bool" where
  "mayFire s socket now =
     (case getPlayer s socket of
        None \<Rightarrow> False
      | Some r \<Rightarrow>
          health (heap s ! r) > 0 \<and> \<not> isReloading (heap s ! r) \<and> ammo (heap s ! r) > 0
          \<and> (case lastFireTime (heap s ! r) of None \<Rightarrow> True | Some t \<Rightarrow> now - t \<ge> 100))"

text \<open>
  The test of \<^verbatim>\<open>handlePlayerFire\<close> itself, where a player who never fired counts as
  having fired at clock 0.
\<close>

definition fireAccepted :: "server \<Rightarrow> sid \<Rightarrow> int \<Rightarrow> bool" where
  "fireAccepted s socket now =
     (case getPlayer s socket of
        None \<Rightarrow> False
      | Some r \<Rightarrow>
          health (heap s ! r) > 0 \<and> \<not> isReloading (heap s ! r) \<and> ammo (heap s ! r) > 0
          \<and> now - (case lastFireTime (heap s ! r) of None \<Rightarrow> 0 | Some t \<Rightarrow> t) \<ge> 100)"


section \<open>Scenarios\<close>

text \<open>
  A fire payload that places a motionless bullet where a player spawns, and a run in which
  player \<open>b\<close> shoots player \<open>a\<close> four times, a tick after each shot.
\<close>

definition shot :: fireData where
  "shot = \<lparr>f_position = Vec3 (Fin 0) (lit 1.8) (Fin 0), f_direction = Vec3 (Fin 0) (Fin 0) (Fin 0)\<rparr>"

definition duel :: "input list" where
  "duel = [Connect ''a'' 0, Connect ''b'' 0,
           Fire ''b'' shot 1000 1000 0, Tick 1016,
           Fire ''b'' shot 1100 1100 0, Tick 1116,
           Fire ''b'' shot 1200 1200 0, Tick 1216,
           Fire ''b'' shot 1300 1300 0, Tick 1316]"

text \<open>The state after player \<open>a\<close>, dead and waiting for the respawn, has left.\<close>

definition afterLeave :: server where
  "afterLeave = run 0 (duel @ [Disconnect ''a''])"

text \<open>One player who has fired one bullet from the origin along the \<open>x\<close> axis.\<close>

definition aimed :: fireData where
  "aimed = \<lparr>f_position = Vec3 (Fin 0) (Fin 0) (Fin 0), f_direction = Vec3 (Fin 1) (Fin 0) (Fin 0)\<rparr>"

definition oneShot :: server where
  "oneShot = run 0 [Connect ''a'' 0, Fire ''a'' aimed 1000 1000 0]"

text \<open>Two players with one bullet each in flight.\<close>

definition crossfire :: server where
  "crossfire = run 0 [Connect ''a'' 0, Connect ''b'' 0,
                      Fire ''a'' aimed 1000 1000 0, Fire ''b'' aimed 1050 1050 0]"

text \<open>One player, just connected.\<close>

definition lobby :: server where
  "lobby = run 0 [Connect ''a'' 0]"

text \<open>
  Three players at the spawn point; \<open>b\<close> has fired a motionless bullet placed there.
\<close>

definition standoff :: server where
  "standoff = run 0 [Connect ''a'' 0, Connect ''b'' 0, Connect ''c'' 0, Fire ''b'' shot 1000 1000 0]"

text \<open>One player who has fired 29 of the 30 rounds of the magazine, 100 ms apart.\<close>

definition volley :: "nat \<Rightarrow> input list" where
  "volley n = map (\<lambda>i. Fire ''a'' aimed (1000 + 100 * int i) (1000 + 100 * int i) 0) [0..<n]"

definition lastRound :: server where
  "lastRound = run 0 (Connect ''a'' 0 # volley 29)"


text \<open>What a scenario leaves of each player in the store.\<close>

definition playerStatus :: "server \<Rightarrow> (sid \<times> nat \<times> sid \<times> int \<times> bool \<times> int \<times> int \<times> int option) list" where
  "playerStatus s =
     map (\<lambda>e. (fst e, snd e, pid (heap s ! snd e), health (heap s ! snd e), isReloading (heap s ! snd e),
               ammo (heap s ! snd e), totalAmmo (heap s ! snd e), lastFireTime (heap s ! snd e)))
       (players s)"

section \<open>The specification's reading of position validation\<close>

text \<open>
  The specification's words for \<^verbatim>\<open>validatePosition\<close>: the position passes exactly when
  both \<open>x\<close> and \<open>z\<close> are well-formed numbers (numbers other than \<^verbatim>\<open>NaN\<close>) with
  \<open>|x| \<le> 1000\<close> and \<open>|z| \<le> 1000\<close>.
\<close>

definition specValidPosition :: "jsval \<Rightarrow> bool" where
  "specValidPosition pos =
     (case (getProp pos ''x'', getProp pos ''z'') of
        (JNum (Fin a), JNum (Fin b)) \<Rightarrow> \<bar>a\<bar> \<le> 1000 \<and> \<bar>b\<bar> \<le> 1000
      | _ \<Rightarrow> False)"

section \<open>The specification's reading of the velocity clamp\<close>



section \<open>Rounding to the nearest double\<close>

lemma fround_0 [simp]: "fround 0 = 0"
  by (simp add: fround_def)

lemma roundEven_int [simp]: "roundEven (of_int n) = n"
  by (simp add: roundEven_def)

lemma roundEven_near:
  assumes "\<bar>y - of_int n\<bar> < 1/2"
  shows "roundEven y = n"
proof (cases "of_int n \<le> y")
  case True
  with assms have "\<lfloor>y\<rfloor> = n" by (intro floor_unique) auto
  with assms True show ?thesis by (simp add: roundEven_def)
next
  case False
  with assms have f: "\<lfloor>y\<rfloor> = n - 1" by (intro floor_unique) auto
  with assms False have "y - of_int \<lfloor>y\<rfloor> > 1/2" by simp
  with f show ?thesis by (simp add: roundEven_def)
qed

text \<open>A number in the binade from \<open>2\<^sup>e\<close> to \<open>2\<^sup>e\<^sup>+\<^sup>1\<close> has \<open>ulp = 2\<^sup>e\<^sup>-\<^sup>5\<^sup>2\<close>.\<close>

lemma ulp_binade:
  assumes "2 powr of_int e \<le> \<bar>x\<bar>" and "\<bar>x\<bar> < 2 powr (of_int e + 1)"
  shows "ulp x = 2 powr (of_int e - 52)"
proof -
  have "0 < \<bar>x\<bar>" using assms(1) by (smt (verit) powr_gt_zero)
  then have "\<lfloor>log 2 \<bar>x\<bar>\<rfloor> = e"
    using assms by (simp add: floor_log_eq_powr_iff)
  then show ?thesis by (simp add: ulp_def)
qed

lemma fround_nearest:
  fixes m e :: int
  assumes inb: "2 powr (of_int e + 52) \<le> \<bar>x\<bar>" "\<bar>x\<bar> < 2 powr (of_int e + 53)"
    and near: "\<bar>x - of_int m * 2 powr of_int e\<bar> < 2 powr of_int e / 2"
  shows "fround x = of_int m * 2 powr of_int e"
proof -
  have u: "ulp x = 2 powr of_int e"
    using ulp_binade[of "e + 52" x] inb by (simp add: add.commute)
  have x0: "x \<noteq> 0" using inb(1) by (smt (verit) powr_gt_zero)
  have p: "(0::real) < 2 powr of_int e" by simp
  have "\<bar>x / 2 powr of_int e - of_int m\<bar> = \<bar>x - of_int m * 2 powr of_int e\<bar> / 2 powr of_int e"
    using p by (simp add: field_simps abs_mult[symmetric] del: powr_gt_zero)
  also have "\<dots> < 1/2"
    using near p by (simp add: field_simps del: powr_gt_zero)
  finally have "roundEven (x / 2 powr of_int e) = m"
    by (rule roundEven_near)
  with u x0 show ?thesis by (simp add: fround_def)
qed

lemma fround_exact:
  fixes n k :: int
  assumes n: "\<bar>n\<bar> < 2 ^ 53"
  shows "fround (of_int n * 2 powr of_int k) = of_int n * 2 powr of_int k"
proof (cases "n = 0")
  case True
  then show ?thesis by simp
next
  case False
  let ?y = "of_int n * 2 powr of_int k :: real"
  define E where "E = \<lfloor>log 2 \<bar>?y\<bar>\<rfloor>"
  have ypos: "0 < \<bar>?y\<bar>" using False by simp
  have lo: "2 powr of_int E \<le> \<bar>?y\<bar>" and hi: "\<bar>?y\<bar> < 2 powr (of_int E + 1)"
    using floor_log_eq_powr_iff[of "\<bar>?y\<bar>" 2 E] ypos by (simp_all add: E_def)
  have "\<bar>?y\<bar> = of_int \<bar>n\<bar> * 2 powr of_int k"
    by (simp add: abs_mult)
  also have "\<dots> < 2 ^ 53 * 2 powr of_int k"
  proof -
    from n have "(of_int \<bar>n\<bar> :: real) < of_int (2 ^ 53)" by (simp only: of_int_less_iff)
    then show ?thesis by simp
  qed
  also have "\<dots> = 2 powr (53 + of_int k)"
    by (simp add: powr_add powr_numeral)
  finally have "\<bar>?y\<bar> < 2 powr (53 + of_int k)" .
  with lo have "2 powr of_int E < (2::real) powr (53 + of_int k)"
    by linarith
  then have "of_int E < (53 + of_int k :: real)" by simp
  then have "E < 53 + k" by linarith
  define d where "d = nat (k - E + 52)"
  have d: "int d = k - E + 52" using \<open>E < 53 + k\<close> by (simp add: d_def)
  have u: "ulp ?y = 2 powr (of_int E - 52)" by (simp add: ulp_def E_def)
  have "2 powr of_int k = 2 powr (of_int E - 52) * (2::real) powr (of_int (int d))"
    unfolding d by (simp add: powr_add[symmetric])
  then have split: "2 powr of_int k = 2 powr (of_int E - 52) * (2::real) ^ d"
    by (simp add: powr_realpow)
  have "?y / ulp ?y = of_int n * 2 ^ d"
    unfolding u by (subst split) simp
  also have "\<dots> = of_int (n * 2 ^ d)" by simp
  finally have q: "?y / ulp ?y = of_int (n * 2 ^ d)" .
  have r: "roundEven (?y / ulp ?y) = n * 2 ^ d"
    unfolding q by (rule roundEven_int)
  have "fround ?y = ulp ?y * of_int (roundEven (?y / ulp ?y))"
    using False by (simp add: fround_def)
  also have "\<dots> = 2 powr (of_int E - 52) * (of_int n * 2 ^ d)"
    by (subst r) (simp add: u)
  also have "\<dots> = ?y"
    by (subst split) simp
  finally show ?thesis .
qed

lemma fround_int:
  assumes "\<bar>n\<bar> < 2 ^ 53"
  shows "fround (of_int n) = of_int n"
  using fround_exact[OF assms, of 0] by simp

lemma fround_dyadic:
  assumes "\<bar>n\<bar> < 2 ^ 53"
  shows "fround (of_int n / 2 ^ k) = of_int n / 2 ^ k"
proof -
  have "(2::real) powr of_int (- int k) = 1 / 2 ^ k"
    by (simp add: powr_minus powr_realpow inverse_eq_divide)
  with fround_exact[OF assms, of "- int k"] show ?thesis by simp
qed

lemma fround_nearest_dyadic:
  fixes m :: int
  assumes "2 ^ 52 \<le> \<bar>x\<bar> * 2 ^ k" and "\<bar>x\<bar> * 2 ^ k < 2 ^ 53"
    and "\<bar>x * 2 ^ k - of_int m\<bar> < 1/2"
  shows "fround x = of_int m / 2 ^ k"
proof -
  have p: "(2::real) powr of_int (- int k) = 1 / 2 ^ k"
    by (simp add: powr_minus powr_realpow inverse_eq_divide)
  have e1: "(2::real) powr (52 - real k) = 2 ^ 52 / 2 ^ k"
    by (simp add: powr_diff powr_realpow powr_numeral)
  have e2: "(2::real) powr (53 - real k) = 2 ^ 53 / 2 ^ k"
    by (simp add: powr_diff powr_realpow powr_numeral)
  have a: "2 powr (of_int (- int k) + 52) \<le> \<bar>x\<bar>"
    using assms(1) by (simp add: e1 field_simps)
  have b: "\<bar>x\<bar> < 2 powr (of_int (- int k) + 53)"
    using assms(2) by (simp add: e2 field_simps)
  have "\<bar>x - of_int m * (1 / 2 ^ k)\<bar> = \<bar>x * 2 ^ k - of_int m\<bar> / 2 ^ k"
    by (simp add: field_simps abs_mult[symmetric] abs_divide[symmetric])
  also have "\<dots> < (1 / 2 ^ k) / 2"
    using assms(3) by (simp add: field_simps)
  finally have c: "\<bar>x - of_int m * 2 powr of_int (- int k)\<bar> < 2 powr of_int (- int k) / 2"
    unfolding p .
  have p': "(2::real) powr - real k = 1 / 2 ^ k"
    by (simp add: powr_minus powr_realpow inverse_eq_divide)
  from fround_nearest[OF a b c] show ?thesis by (simp add: p')
qed

text \<open>The doubles the scenarios compute with.\<close>

lemma fround_1 [simp]: "fround 1 = 1"
  using fround_int[of 1] by simp

lemma fround_2 [simp]: "fround 2 = 2"
  using fround_int[of 2] by simp

lemma fround_50 [simp]: "fround 50 = 50"
  using fround_int[of 50] by simp

lemma fround_half [simp]: "fround (1/2) = 1/2"
  using fround_dyadic[of 1 1] by simp

lemma fround_18: "fround (9/5) = 8106479329266893 / 2 ^ 52"
  using fround_nearest_dyadic[of "9/5" 52 8106479329266893] by simp

lemma fround_08: "fround (4/5) = 7205759403792794 / 2 ^ 53"
  using fround_nearest_dyadic[of "4/5" 53 7205759403792794] by simp

lemma fround_016: "fround (2/125) = 4611686018427388 / 2 ^ 58"
  using fround_nearest_dyadic[of "2/125" 58 4611686018427388] by simp

lemma fround_60th: "fround (1/60) = 4803839602528529 / 2 ^ 58"
  using fround_nearest_dyadic[of "1/60" 58 4803839602528529] by simp


text \<open>
  Arithmetic on the literals \<open>1.8\<close>, \<open>0.8\<close> and \<open>0.016\<close> of the source, written as the
  fractions \<open>9/5\<close>, \<open>4/5\<close> and \<open>2/125\<close>.
\<close>

lemma lit_18_plus_0 [simp]: "lit (9/5) + Fin 0 = lit (9/5)"
  using fround_dyadic[of 8106479329266893 52] by (simp add: lit_def fround_18)

lemma lit_18_minus [simp]: "lit (9/5) - lit (9/5) = Fin 0"
  by (simp add: lit_def)

lemma lit_016_times_0 [simp]: "Fin 0 * lit (2/125) = Fin 0"
  by (simp add: lit_def)

lemma lit_016_times_50 [simp]: "Fin 50 * lit (2/125) = lit (4/5)"
proof -
  have "fround (50 * (4611686018427388 / 2 ^ 58)) = 7205759403792794 / 2 ^ 53"
    using fround_nearest_dyadic[of "50 * (4611686018427388 / 2 ^ 58)" 53 7205759403792794] by simp
  then show ?thesis
    by (simp add: lit_def fround_016 fround_08)
qed

lemma lit_08_plus_0 [simp]: "Fin 0 + lit (4/5) = lit (4/5)"
  using fround_dyadic[of 7205759403792794 53] by (simp add: lit_def fround_08)

lemma lit_08_pos [simp]: "Fin 0 < lit (4/5)"
  by (simp add: lit_def fround_08)

lemma sixtieth_times_50: "Fin 50 * (Fin 1 / Fin 60) = Fin (7505999378950827 / 2 ^ 53)"
proof -
  have "fround (50 * (4803839602528529 / 2 ^ 58)) = 7505999378950827 / 2 ^ 53"
    using fround_nearest_dyadic[of "50 * (4803839602528529 / 2 ^ 58)" 53 7505999378950827] by simp
  then show ?thesis
    by (simp add: fround_60th)
qed

section \<open>The invariant holds in every reachable state\<close>


lemma emit_fields [simp]:
  "heap (emit t m s) = heap s" "players (emit t m s) = players s" "bullets (emit t m s) = bullets s"
  "timers (emit t m s) = timers s" "tick (emit t m s) = tick s" "gsLastUpdate (emit t m s) = gsLastUpdate s"
  "outbox (emit t m s) = outbox s @ [(t, m)]"
  by (simp_all add: emit_def)

lemma modify_fields [simp]:
  "heap (modify r f s) = (heap s)[r := f (heap s ! r)]" "players (modify r f s) = players s"
  "bullets (modify r f s) = bullets s" "timers (modify r f s) = timers s" "tick (modify r f s) = tick s"
  "gsLastUpdate (modify r f s) = gsLastUpdate s" "outbox (modify r f s) = outbox s"
  by (simp_all add: modify_def)

lemma getPlayer_emit [simp]: "getPlayer (emit t m s) = getPlayer s"
  by (simp add: getPlayer_def fun_eq_iff)

lemma getPlayer_modify [simp]: "getPlayer (modify r f s) = getPlayer s"
  by (simp add: getPlayer_def fun_eq_iff)

lemma serverInv_emit: "serverInv s \<Longrightarrow> goodMessage m \<Longrightarrow> serverInv (emit t m s)"
  by (simp add: serverInv_def)

lemma serverInv_modify:
  assumes inv: "serverInv s"
    and f: "r < length (heap s) \<Longrightarrow> goodPlayer (f (heap s ! r)) \<and> pid (f (heap s ! r)) = pid (heap s ! r)"
  shows "serverInv (modify r f s)"
proof (cases "r < length (heap s)")
  case False
  then have "modify r f s = s" by (simp add: modify_def list_update_beyond)
  with inv show ?thesis by simp
next
  case True
  have "set ((heap s)[r := f (heap s ! r)]) \<subseteq> insert (f (heap s ! r)) (set (heap s))"
    by (rule set_update_subset_insert)
  with inv f[OF True] have 1: "\<forall>p \<in> set (heap (modify r f s)). goodPlayer p"
    by (auto simp: serverInv_def)
  have 2: "\<forall>e \<in> set (players s). pid ((heap s)[r := f (heap s ! r)] ! snd e) = fst e"
  proof
    fix e assume "e \<in> set (players s)"
    with inv have e: "snd e < length (heap s)" "pid (heap s ! snd e) = fst e"
      by (simp_all add: serverInv_def)
    show "pid ((heap s)[r := f (heap s ! r)] ! snd e) = fst e"
      using e f[OF True] by (cases "snd e = r") simp_all
  qed
  show ?thesis
    using inv 1 2 by (simp add: serverInv_def)
qed

lemma serverInv_timer:
  "serverInv s \<Longrightarrow> timerRef t < length (heap s) \<Longrightarrow> serverInv (s\<lparr>timers := timers s @ [t]\<rparr>)"
  by (simp add: serverInv_def)

lemma serverInv_timers_subset:
  "serverInv s \<Longrightarrow> set ts \<subseteq> set (timers s) \<Longrightarrow> serverInv (s\<lparr>timers := ts\<rparr>)"
  by (auto simp: serverInv_def)

lemma serverInv_bullets:
  "serverInv s \<Longrightarrow> \<forall>e \<in> set bs. goodBullet e \<Longrightarrow> distinct (map fst bs) \<Longrightarrow> serverInv (s\<lparr>bullets := bs\<rparr>)"
  by (simp add: serverInv_def)

lemma serverInv_bullets_filter:
  "serverInv s \<Longrightarrow> serverInv (s\<lparr>bullets := filter P (bullets s)\<rparr>)"
  by (simp add: serverInv_def distinct_map_filter)

lemma serverInv_bullets_delete:
  "serverInv s \<Longrightarrow> serverInv (s\<lparr>bullets := AList.delete k (bullets s)\<rparr>)"
  by (simp add: AList.delete_eq serverInv_bullets_filter)

lemma serverInv_players_delete:
  "serverInv s \<Longrightarrow> serverInv (s\<lparr>players := AList.delete k (players s)\<rparr>)"
  by (auto simp: serverInv_def AList.delete_eq distinct_map_filter)

lemma serverInv_clock:
  "serverInv s \<Longrightarrow> serverInv (s\<lparr>tick := n, gsLastUpdate := t\<rparr>)"
  by (simp add: serverInv_def)

lemma serverInv_initial: "serverInv (initial t0)"
  by (simp add: serverInv_def initial_def)


lemma serverInv_modify_good:
  assumes inv: "serverInv s"
    and f: "\<And>p. goodPlayer p \<Longrightarrow> r < length (heap s) \<Longrightarrow> p = heap s ! r \<Longrightarrow> goodPlayer (f p) \<and> pid (f p) = pid p"
  shows "serverInv (modify r f s)"
proof (rule serverInv_modify[OF inv])
  assume r: "r < length (heap s)"
  with inv have "goodPlayer (heap s ! r)" by (simp add: serverInv_def)
  from f[OF this r refl] show "goodPlayer (f (heap s ! r)) \<and> pid (f (heap s ! r)) = pid (heap s ! r)" .
qed

lemma getPlayer_ref:
  assumes "serverInv s" and "getPlayer s k = Some r"
  shows "r < length (heap s)" and "pid (heap s ! r) = k" and "(k, r) \<in> set (players s)"
proof -
  from assms(2) show m: "(k, r) \<in> set (players s)"
    unfolding getPlayer_def by (rule map_of_SomeD)
  with assms(1) show "r < length (heap s)" "pid (heap s ! r) = k"
    by (auto simp: serverInv_def)
qed

lemma set_update_subset: "set (AList.update k v al) \<subseteq> insert (k, v) (set al)"
  by (induction al) auto

lemma serverInv_initializePlayer:
  assumes inv: "serverInv s"
  shows "serverInv (initializePlayer socket now s)"
proof -
  let ?p = "\<lparr>pid = socket, position = Vec3 (Fin 0) (lit 1.8) (Fin 0),
              rotation = JObj [(''x'', JNum (Fin 0)), (''y'', JNum (Fin 0)), (''z'', JNum (Fin 0))],
              velocity = Vec2 (Fin 0) (Fin 0), health = 100, maxHealth = 100, ammo = 30,
              totalAmmo = 120, isReloading = False, lastUpdate = now,
              name = ''Player_'' @ take 6 socket, kills = 0, deaths = 0, connected = True,
              lastFireTime = None\<rparr>"
  let ?s1 = "s\<lparr>heap := heap s @ [?p], players := AList.update socket (length (heap s)) (players s)\<rparr>"
  have good: "goodPlayer ?p" by (simp add: goodPlayer_def)
  have entries: "\<forall>e \<in> set (players ?s1). snd e < length (heap ?s1) \<and> pid (heap ?s1 ! snd e) = fst e"
  proof
    fix e assume "e \<in> set (players ?s1)"
    then have "e = (socket, length (heap s)) \<or> e \<in> set (players s)"
      using set_update_subset[of socket "length (heap s)" "players s"] by auto
    then show "snd e < length (heap ?s1) \<and> pid (heap ?s1 ! snd e) = fst e"
      using inv by (auto simp: serverInv_def nth_append)
  qed
  have "serverInv ?s1"
    using inv good entries
    by (auto simp: serverInv_def distinct_update less_Suc_eq)
  then show ?thesis
    unfolding initializePlayer_def Let_def
    by (intro serverInv_emit) simp_all
qed

lemma serverInv_handlePlayerUpdate:
  "serverInv s \<Longrightarrow> serverInv (handlePlayerUpdate socket data now s)"
  unfolding handlePlayerUpdate_def Let_def
  by (auto split: option.splits intro!: serverInv_modify_good simp: goodPlayer_def)

lemma serverInv_startReload:
  assumes "serverInv s" and "r < length (heap s)"
  shows "serverInv (startReload r s)"
proof -
  have "serverInv (modify r (\<lambda>player. player\<lparr>isReloading := True\<rparr>) s)"
    using assms(1) by (rule serverInv_modify_good) (simp add: goodPlayer_def)
  then have "serverInv ((modify r (\<lambda>player. player\<lparr>isReloading := True\<rparr>) s)
      \<lparr>timers := timers (modify r (\<lambda>player. player\<lparr>isReloading := True\<rparr>) s) @ [ReloadTimer r]\<rparr>)"
    by (rule serverInv_timer) (simp add: assms(2))
  then show ?thesis by (simp add: startReload_def)
qed

lemma limitBullets_cases:
  "limitBullets bs = bs \<or> (\<exists>k. limitBullets bs = AList.delete k bs)"
  by (auto simp: limitBullets_def split: list.splits)

lemma startReload_fields [simp]:
  "heap (startReload r s) = (heap s)[r := (heap s ! r)\<lparr>isReloading := True\<rparr>]"
  "players (startReload r s) = players s" "bullets (startReload r s) = bullets s"
  "timers (startReload r s) = timers s @ [ReloadTimer r]" "outbox (startReload r s) = outbox s"
  "tick (startReload r s) = tick s" "gsLastUpdate (startReload r s) = gsLastUpdate s"
  by (simp_all add: startReload_def)

lemma serverInv_insert_bullet:
  assumes inv: "serverInv s" and good: "goodBullet (k, b)"
  shows "serverInv (s\<lparr>bullets := limitBullets (AList.update k b (bullets s))\<rparr>)"
proof -
  let ?bs = "AList.update k b (bullets s)"
  have g: "\<forall>e \<in> set ?bs. goodBullet e"
    using set_update_subset[of k b "bullets s"] inv good by (auto simp: serverInv_def)
  have d: "distinct (map fst ?bs)"
    using inv by (simp add: serverInv_def distinct_update)
  have "serverInv (s\<lparr>bullets := ?bs\<rparr>)"
    by (rule serverInv_bullets[OF inv g d])
  from serverInv_bullets_delete[OF this] this show ?thesis
    using limitBullets_cases[of ?bs] by auto
qed


lemma handlePlayerFire_rejected:
  assumes "\<not> mayFire s socket now"
  shows "handlePlayerFire socket data now idTime rnd s = s"
proof (cases "getPlayer s socket")
  case None
  then show ?thesis by (simp add: handlePlayerFire_def)
next
  case (Some r)
  show ?thesis
  proof (cases "health (heap s ! r) \<le> 0 \<or> isReloading (heap s ! r) \<or> ammo (heap s ! r) \<le> 0")
    case True
    then show ?thesis using Some by (simp add: handlePlayerFire_def)
  next
    case False
    with assms Some obtain t where t: "lastFireTime (heap s ! r) = Some t" "now - t < 100"
      by (auto simp: mayFire_def split: option.splits)
    have same: "modify r (\<lambda>p. p\<lparr>lastFireTime := Some 0\<rparr>) s = s" if "t = 0"
    proof -
      have "(heap s ! r)\<lparr>lastFireTime := Some 0\<rparr> = heap s ! r"
        using t that by simp
      then show ?thesis by (simp add: modify_def)
    qed
    show ?thesis
      using Some False t same by (simp add: handlePlayerFire_def Let_def)
  qed
qed

lemma handlePlayerFire_accepted:
  assumes g: "getPlayer s socket = Some r" and r: "r < length (heap s)"
    and acc: "fireAccepted s socket now"
  shows "handlePlayerFire socket data now idTime rnd s =
     s\<lparr>heap := (heap s)[r :=
            (if ammo (heap s ! r) - 1 \<le> 0 \<and> totalAmmo (heap s ! r) > 0
             then (heap s ! r)\<lparr>lastFireTime := Some now, ammo := ammo (heap s ! r) - 1, isReloading := True\<rparr>
             else (heap s ! r)\<lparr>lastFireTime := Some now, ammo := ammo (heap s ! r) - 1\<rparr>)],
       timers := timers s @ (if ammo (heap s ! r) - 1 \<le> 0 \<and> totalAmmo (heap s ! r) > 0
                             then [ReloadTimer r] else []),
       bullets := limitBullets (AList.update (BulletId socket idTime rnd)
                     (newBullet socket data now idTime rnd) (bullets s)),
       outbox := outbox s @ [(Everyone, PlayerFired socket (BulletId socket idTime rnd)
                     (f_position data) (f_direction data) (ammo (heap s ! r) - 1))]\<rparr>"
proof -
  from acc g have ok: "health (heap s ! r) > 0" "\<not> isReloading (heap s ! r)" "ammo (heap s ! r) > 0"
    and rate: "now - (case lastFireTime (heap s ! r) of None \<Rightarrow> 0 | Some t \<Rightarrow> t) \<ge> 100"
    by (simp_all add: fireAccepted_def)
  show ?thesis
  proof (cases "lastFireTime (heap s ! r) = None \<or> lastFireTime (heap s ! r) = Some 0")
    case True
    with rate have "100 \<le> now" by auto
    then show ?thesis
      using g r ok True
      by (simp add: handlePlayerFire_def Let_def newBullet_def emit_def modify_def startReload_def)
  next
    case False
    then obtain t where "lastFireTime (heap s ! r) = Some t" "t \<noteq> 0" by auto
    then show ?thesis
      using g r ok rate
      by (simp add: handlePlayerFire_def Let_def newBullet_def emit_def modify_def startReload_def)
  qed
qed


lemma length_heap_modify [simp]: "length (heap (modify r f s)) = length (heap s)"
  by simp

lemma serverInv_handlePlayerFire:
  assumes inv: "serverInv s"
  shows "serverInv (handlePlayerFire socket data now idTime rnd s)"
proof (cases "getPlayer s socket")
  case None
  with inv show ?thesis by (simp add: handlePlayerFire_def)
next
  case (Some r)
  from getPlayer_ref[OF inv Some] have r: "r < length (heap s)" by simp
  define s1 where "s1 = (if lastFireTime (heap s ! r) = None \<or> lastFireTime (heap s ! r) = Some 0
                       then modify r (\<lambda>p. p\<lparr>lastFireTime := Some 0\<rparr>) s else s)"
  define s2 where "s2 = modify r (\<lambda>p. p\<lparr>lastFireTime := Some now\<rparr>) s1"
  define s3 where "s3 = modify r (\<lambda>p. p\<lparr>ammo := ammo p - 1\<rparr>) s2"
  define s4 where "s4 = (if ammo (heap s3 ! r) \<le> 0 \<and> totalAmmo (heap s3 ! r) > 0
                             then startReload r s3 else s3)"
  define b where "b = newBullet socket data now idTime rnd"
  define s6 where "s6 = s4\<lparr>bullets := limitBullets (AList.update (BulletId socket idTime rnd) b (bullets s4))\<rparr>"
  have i1: "serverInv s1"
    unfolding s1_def using inv by (auto intro!: serverInv_modify_good simp: goodPlayer_def)
  have i2: "serverInv s2"
    unfolding s2_def using i1 by (auto intro!: serverInv_modify_good simp: goodPlayer_def)
  have i3: "serverInv s3"
    unfolding s3_def using i2 by (auto intro!: serverInv_modify_good simp: goodPlayer_def)
  have l3: "r < length (heap s3)"
    using r by (simp add: s3_def s2_def s1_def)
  have i4: "serverInv s4"
    unfolding s4_def using i3 l3 by (simp add: serverInv_startReload)
  have i6: "serverInv s6"
    unfolding s6_def by (rule serverInv_insert_bullet[OF i4]) (simp add: goodBullet_def b_def newBullet_def)
  have "handlePlayerFire socket data now idTime rnd s = s
      \<or> handlePlayerFire socket data now idTime rnd s = s1
      \<or> handlePlayerFire socket data now idTime rnd s =
          emit Everyone (PlayerFired socket (BulletId socket idTime rnd) (b_position b) (direction b)
                           (ammo (heap s6 ! r))) s6"
    unfolding handlePlayerFire_def Let_def s6_def s4_def s3_def s2_def s1_def b_def
    using Some by simp
  with inv i1 serverInv_emit[OF i6] show ?thesis
    by (auto simp del: emit_fields)
qed

lemma serverInv_handlePlayerReload:
  assumes inv: "serverInv s"
  shows "serverInv (handlePlayerReload socket s)"
proof (cases "getPlayer s socket")
  case None
  with inv show ?thesis by (simp add: handlePlayerReload_def)
next
  case (Some r)
  from getPlayer_ref[OF inv Some] have "r < length (heap s)" by simp
  with inv Some show ?thesis
    by (simp add: handlePlayerReload_def serverInv_startReload)
qed

lemma serverInv_handleDisconnect:
  assumes inv: "serverInv s"
  shows "serverInv (handleDisconnect socket s)"
proof (cases "getPlayer s socket")
  case None
  with inv show ?thesis by (simp add: handleDisconnect_def)
next
  case (Some r)
  have "serverInv (s\<lparr>bullets := filter (\<lambda>(bulletId, bullet). playerId bullet \<noteq> socket) (bullets s)\<rparr>)"
    using inv by (rule serverInv_bullets_filter)
  from serverInv_players_delete[OF this, of socket]
  have "serverInv (s\<lparr>bullets := filter (\<lambda>(bulletId, bullet). playerId bullet \<noteq> socket) (bullets s),
               players := AList.delete socket (players s)\<rparr>)"
    by simp
  then show ?thesis
    using Some by (simp add: handleDisconnect_def serverInv_emit del: emit_fields)
qed


lemma serverInv_handlePlayerHit:
  assumes inv: "serverInv s" and dmg: "damage b = 25"
    and hit: "hit < length (heap s)" and alive: "health (heap s ! hit) > 0"
  shows "serverInv (handlePlayerHit b hit s)"
proof (cases "getPlayer s (playerId b)")
  case None
  with inv show ?thesis by (simp add: handlePlayerHit_def)
next
  case (Some shooter)
  define s1 where "s1 = modify hit (\<lambda>p. p\<lparr>health := health p - damage b\<rparr>) s"
  define s2 where "s2 = emit Everyone
                      (PlayerHit (pid (heap s1 ! hit)) (pid (heap s1 ! shooter)) (damage b)
                         (health (heap s1 ! hit)) (b_id b)) s1"
  define s3 where "s3 = modify hit (\<lambda>p. p\<lparr>deaths := deaths p + 1\<rparr>) s2"
  define s4 where "s4 = modify shooter (\<lambda>p. p\<lparr>kills := kills p + 1\<rparr>) s3"
  define s5 where "s5 = emit Everyone
                            (PlayerKilled (pid (heap s4 ! hit)) (pid (heap s4 ! shooter))
                               (name (heap s4 ! shooter)) (name (heap s4 ! hit))) s4"
  from inv hit have good: "goodPlayer (heap s ! hit)" by (simp add: serverInv_def)
  have i1: "serverInv s1"
    unfolding s1_def using inv
  proof (rule serverInv_modify_good)
    fix p assume "goodPlayer p" "p = heap s ! hit"
    with alive dmg show "goodPlayer (p\<lparr>health := health p - damage b\<rparr>)
        \<and> pid (p\<lparr>health := health p - damage b\<rparr>) = pid p"
      by (auto simp: goodPlayer_def)
  qed
  have h1: "0 \<le> health (heap s1 ! hit)"
    using good alive dmg hit by (auto simp: s1_def goodPlayer_def)
  have i2: "serverInv s2"
    unfolding s2_def using i1 h1 by (intro serverInv_emit) simp_all
  have i3: "serverInv s3"
    unfolding s3_def using i2 by (auto intro!: serverInv_modify_good simp: goodPlayer_def)
  have i4: "serverInv s4"
    unfolding s4_def using i3 by (auto intro!: serverInv_modify_good simp: goodPlayer_def)
  have i5: "serverInv s5"
    unfolding s5_def using i4 by (intro serverInv_emit) simp_all
  have l5: "hit < length (heap s5)"
    using hit by (simp add: s5_def s4_def s3_def s2_def s1_def)
  have i6: "serverInv (s5\<lparr>timers := timers s5 @ [RespawnTimer hit]\<rparr>)"
    using i5 l5 by (intro serverInv_timer) simp_all
  have "handlePlayerHit b hit s = s2 \<or> handlePlayerHit b hit s = s5\<lparr>timers := timers s5 @ [RespawnTimer hit]\<rparr>"
    unfolding handlePlayerHit_def Let_def s5_def s4_def s3_def s2_def s1_def
    using Some by simp
  with i2 i6 show ?thesis by auto
qed

lemma serverInv_scanPlayers:
  assumes inv: "serverInv s" and dmg: "damage b = 25"
    and refs: "\<forall>e \<in> set ps. snd e < length (heap s)"
  shows "serverInv (fst (scanPlayers b ps s))"
  using refs
proof (induction ps)
  case Nil
  with inv show ?case by simp
next
  case (Cons e ps)
  obtain k r where e: "e = (k, r)" by (cases e)
  from Cons.prems e have r: "r < length (heap s)" by simp
  from Cons have IH: "serverInv (fst (scanPlayers b ps s))" by simp
  show ?case
    using IH serverInv_handlePlayerHit[OF inv dmg r]
    by (simp add: e not_le)
qed

lemma serverInv_collideBullets:
  assumes "serverInv s" and "\<forall>e \<in> set bs. damage (snd e) = 25"
  shows "serverInv (collideBullets bs s)"
  using assms
proof (induction bs arbitrary: s)
  case Nil
  then show ?case by simp
next
  case (Cons e bs)
  obtain k b where e: "e = (k, b)" by (cases e)
  from Cons.prems e have dmg: "damage b = 25" by simp
  have refs: "\<forall>e \<in> set (players s). snd e < length (heap s)"
    using Cons.prems(1) by (simp add: serverInv_def)
  have i1: "serverInv (fst (scanPlayers b (players s) s))"
    by (rule serverInv_scanPlayers[OF Cons.prems(1) dmg refs])
  obtain s1 hit where sc: "scanPlayers b (players s) s = (s1, hit)"
    by (cases "scanPlayers b (players s) s")
  with i1 have i1': "serverInv s1" by simp
  have "serverInv (if hit then s1\<lparr>bullets := AList.delete k (bullets s1)\<rparr> else s1)"
    using i1' by (simp add: serverInv_bullets_delete)
  from Cons.IH[OF this] Cons.prems(2) show ?case
    by (simp add: e sc)
qed

lemma expired_moveBullet: "expired now (moveBullet b) = expired now b"
  by (simp add: expired_def moveBullet_def)

lemma updateBulletList_eq:
  "updateBulletList now bs =
     (map (\<lambda>(k, b). (k, moveBullet b)) (filter (\<lambda>(k, b). \<not> expired now b) bs),
      map fst (filter (\<lambda>(k, b). expired now b) bs))"
  by (induction bs) (auto simp: expired_moveBullet Let_def)

lemma updateBullets_fields [simp]:
  "heap (updateBullets now s) = heap s" "players (updateBullets now s) = players s"
  "timers (updateBullets now s) = timers s" "tick (updateBullets now s) = tick s"
  "gsLastUpdate (updateBullets now s) = gsLastUpdate s"
  "bullets (updateBullets now s) =
     map (\<lambda>(k, b). (k, moveBullet b)) (filter (\<lambda>(k, b). \<not> expired now b) (bullets s))"
  "outbox (updateBullets now s) =
     outbox s @ map (\<lambda>bulletId. (Everyone, BulletExpired bulletId))
                  (map fst (filter (\<lambda>(k, b). expired now b) (bullets s)))"
  by (simp_all add: updateBullets_def updateBulletList_eq)

lemma fst_comp_moved: "fst \<circ> (\<lambda>(k, b). (k, f b)) = fst"
  by (auto simp: fun_eq_iff)

lemma serverInv_updateBullets:
  assumes inv: "serverInv s"
  shows "serverInv (updateBullets now s)"
proof -
  have g: "\<forall>e \<in> set (bullets (updateBullets now s)). goodBullet e"
    using inv by (auto simp: serverInv_def goodBullet_def moveBullet_def)
  have d: "distinct (map fst (bullets (updateBullets now s)))"
    using inv by (simp add: serverInv_def fst_comp_moved distinct_map_filter)
  have o: "\<forall>e \<in> set (outbox (updateBullets now s)). goodMessage (snd e)"
    using inv by (auto simp: serverInv_def)
  show ?thesis
    using inv g d o unfolding serverInv_def by simp
qed

lemma serverInv_cleanupPlayerList:
  "serverInv s \<Longrightarrow> serverInv (cleanupPlayerList now ps s)"
proof (induction ps arbitrary: s)
  case Nil
  then show ?case by simp
next
  case (Cons e ps)
  obtain k r where e: "e = (k, r)" by (cases e)
  have "serverInv (if now - lastUpdate (heap s ! r) > 60000 then
          emit Everyone (PlayerLeft k) (s\<lparr>players := AList.delete k (players s)\<rparr>) else s)"
    using Cons.prems serverInv_emit[OF serverInv_players_delete[OF Cons.prems], of "PlayerLeft k" Everyone k]
    by (simp del: emit_fields)
  from Cons.IH[OF this] show ?case by (simp add: e)
qed

lemma serverInv_updateGameState:
  assumes inv: "serverInv s"
  shows "serverInv (updateGameState now s)"
proof -
  have 1: "serverInv (s\<lparr>tick := tick s + 1, gsLastUpdate := now\<rparr>)"
    using inv by (rule serverInv_clock)
  have 2: "serverInv (updateBullets now (s\<lparr>tick := tick s + 1, gsLastUpdate := now\<rparr>))"
    using 1 by (rule serverInv_updateBullets)
  have 3: "serverInv (checkBulletCollisions (updateBullets now (s\<lparr>tick := tick s + 1, gsLastUpdate := now\<rparr>)))"
    unfolding checkBulletCollisions_def
    using 2 by (rule serverInv_collideBullets) (use 2 in \<open>auto simp: serverInv_def goodBullet_def simp del: updateBullets_fields\<close>)
  show ?thesis
    unfolding updateGameState_def Let_def cleanupInactivePlayers_def
    using 3 by (rule serverInv_cleanupPlayerList)
qed

lemma serverInv_sendClientUpdates: "serverInv s \<Longrightarrow> serverInv (sendClientUpdates s)"
  by (simp add: sendClientUpdates_def Let_def serverInv_emit del: emit_fields)

lemma serverInv_cleanupBullets: "serverInv s \<Longrightarrow> serverInv (cleanupBullets now s)"
  by (simp add: cleanupBullets_def serverInv_bullets_filter)

lemma serverInv_reloadComplete: "serverInv s \<Longrightarrow> serverInv (reloadComplete r s)"
  unfolding reloadComplete_def Let_def
  by (auto intro!: serverInv_emit serverInv_modify_good simp: goodPlayer_def simp del: emit_fields)

lemma serverInv_respawnPlayer: "serverInv s \<Longrightarrow> serverInv (respawnPlayer r rx rz s)"
  unfolding respawnPlayer_def Let_def
  by (auto intro!: serverInv_emit serverInv_modify_good simp: goodPlayer_def simp del: emit_fields)

lemma serverInv_fireTimer:
  assumes inv: "serverInv s"
  shows "serverInv (fireTimer i rx rz s)"
proof (cases "i < length (timers s)")
  case False
  with inv show ?thesis by (simp add: fireTimer_def)
next
  case True
  have "set (take i (timers s) @ drop (Suc i) (timers s)) \<subseteq> set (timers s)"
    using set_take_subset[of i "timers s"] set_drop_subset[of "Suc i" "timers s"] by auto
  with inv have "serverInv (s\<lparr>timers := take i (timers s) @ drop (Suc i) (timers s)\<rparr>)"
    by (rule serverInv_timers_subset)
  then show ?thesis
    using True
    by (simp add: fireTimer_def Let_def serverInv_reloadComplete serverInv_respawnPlayer split: timer.splits)
qed

lemma serverInv_step: "serverInv s \<Longrightarrow> serverInv (step i s)"
  by (cases i)
     (simp_all add: serverInv_initializePlayer serverInv_handlePlayerUpdate serverInv_handlePlayerFire
        serverInv_handlePlayerReload serverInv_handleDisconnect serverInv_updateGameState
        serverInv_sendClientUpdates serverInv_cleanupBullets serverInv_fireTimer)

lemma reachable_serverInv: "reachable s \<Longrightarrow> serverInv s"
  by (induction rule: reachable.induct) (simp_all add: serverInv_initial serverInv_step)

lemma reachable_foldl: "reachable s \<Longrightarrow> reachable (foldl (\<lambda>s i. step i s) s ins)"
  by (induction ins arbitrary: s) (simp_all add: reachable_step)

lemma reachable_run: "reachable (run t0 ins)"
  unfolding run_def by (rule reachable_foldl) (rule reachable_initial)


section \<open>Evaluating the scenarios\<close>

lemmas eval_defs = run_def initial_def initializePlayer_def handlePlayerFire_def emit_def modify_def
  getPlayer_def startReload_def updateGameState_def updateBullets_def checkBulletCollisions_def
  cleanupInactivePlayers_def handlePlayerHit_def distance_def moveBullet_def expired_def deltaTime_def
  MAX_BULLETS_def Let_def newBullet_def limitBullets_def handleDisconnect_def fireTimer_def
  respawnPlayer_def reloadComplete_def handlePlayerReload_def duel_def shot_def afterLeave_def aimed_def
  oneShot_def crossfire_def lobby_def standoff_def volley_def lastRound_def

lemma duel_players: "players (run 0 duel) = [(''a'', 0), (''b'', 1)]"
  by (simp add: eval_defs)

lemma duel_health: "map health (heap (run 0 duel)) = [0, 100]"
  by (simp add: eval_defs)

lemma duel_last_hit:
  "(Everyone, PlayerHit ''a'' ''b'' 25 0 (BulletId ''b'' 1300 0)) \<in> set (outbox (run 0 duel))"
  by (simp add: eval_defs)

section \<open>Health\<close>

text \<open>
  Claim C2. In every reachable state, every player in the store has a health between 0
  and its maximum 100 (it moves in steps of 25, so the hit that kills leaves exactly 0),
  and every hit notification published so far reports a health that is not negative.
\<close>

theorem health_stays_in_range:
  assumes "reachable s"
  shows "(\<forall>e \<in> set (players s).
            0 \<le> health (heap s ! snd e) \<and> health (heap s ! snd e) \<le> maxHealth (heap s ! snd e)
            \<and> maxHealth (heap s ! snd e) = 100)
         \<and> (\<forall>t v sh d h k. (t, PlayerHit v sh d h k) \<in> set (outbox s) \<longrightarrow> 0 \<le> h)"
proof -
  from assms have inv: "serverInv s" by (rule reachable_serverInv)
  have "0 \<le> health (heap s ! snd e) \<and> health (heap s ! snd e) \<le> maxHealth (heap s ! snd e)
            \<and> maxHealth (heap s ! snd e) = 100" if "e \<in> set (players s)" for e
  proof -
    from inv that have "snd e < length (heap s)" by (simp add: serverInv_def)
    with inv have "goodPlayer (heap s ! snd e)" by (simp add: serverInv_def)
    then show ?thesis by (auto simp: goodPlayer_def)
  qed
  moreover have "0 \<le> h" if "(t, PlayerHit v sh d h k) \<in> set (outbox s)" for t v sh d h k
  proof -
    from inv that have "goodMessage (snd (t, PlayerHit v sh d h k))"
      unfolding serverInv_def by blast
    then show ?thesis by simp
  qed
  ultimately show ?thesis by blast
qed

theorem health_stays_in_range_witness:
  "reachable (run 0 duel)
   \<and> players (run 0 duel) = [(''a'', 0), (''b'', 1)]
   \<and> map health (heap (run 0 duel)) = [0, 100]
   \<and> (Everyone, PlayerHit ''a'' ''b'' 25 0 (BulletId ''b'' 1300 0)) \<in> set (outbox (run 0 duel))
   \<and> 0 \<le> health (heap (run 0 duel) ! 0) \<and> health (heap (run 0 duel) ! 0) \<le> 100"
proof -
  have r: "reachable (run 0 duel)" by (rule reachable_run)
  from health_stays_in_range[OF r] duel_players
  have "0 \<le> health (heap (run 0 duel) ! 0) \<and> health (heap (run 0 duel) ! 0) \<le> 100"
    by simp
  with r duel_players duel_health duel_last_hit show ?thesis by simp
qed

section \<open>Timers that outlive their player\<close>

lemma reloadComplete_fields:
  "players (reloadComplete r s) = players s" "bullets (reloadComplete r s) = bullets s"
  "timers (reloadComplete r s) = timers s"
  "heap (reloadComplete r s) =
     (heap s)[r := (heap s ! r)\<lparr>ammo := ammo (heap s ! r) + min (30 - ammo (heap s ! r)) (totalAmmo (heap s ! r)),
                               totalAmmo := totalAmmo (heap s ! r) - min (30 - ammo (heap s ! r)) (totalAmmo (heap s ! r)),
                               isReloading := False\<rparr>]"
  by (simp_all add: reloadComplete_def Let_def)

lemma reloadComplete_outbox:
  "r < length (heap s) \<Longrightarrow>
   outbox (reloadComplete r s) =
     outbox s @ [(Room (pid (heap s ! r)),
                  ReloadComplete (ammo (heap s ! r) + min (30 - ammo (heap s ! r)) (totalAmmo (heap s ! r)))
                                 (totalAmmo (heap s ! r) - min (30 - ammo (heap s ! r)) (totalAmmo (heap s ! r))))]"
  by (simp add: reloadComplete_def Let_def)

lemma respawnPlayer_fields:
  "players (respawnPlayer r rx rz s) = players s" "bullets (respawnPlayer r rx rz s) = bullets s"
  "timers (respawnPlayer r rx rz s) = timers s"
  "heap (respawnPlayer r rx rz s) =
     (heap s)[r := (heap s ! r)\<lparr>health := maxHealth (heap s ! r), ammo := 30, totalAmmo := 120,
                               isReloading := False,
                               position := Vec3 ((Fin rx - Fin 0.5) * Fin 50) (lit 1.8)
                                                ((Fin rz - Fin 0.5) * Fin 50)\<rparr>]"
  by (simp_all add: respawnPlayer_def Let_def)

lemma respawnPlayer_outbox:
  "r < length (heap s) \<Longrightarrow>
   outbox (respawnPlayer r rx rz s) =
     outbox s @ [(Everyone, PlayerRespawned (pid (heap s ! r))
                    (Vec3 ((Fin rx - Fin 0.5) * Fin 50) (lit 1.8) ((Fin rz - Fin 0.5) * Fin 50))
                    (maxHealth (heap s ! r)))]"
  by (simp add: respawnPlayer_def Let_def)

lemma afterLeave_players: "players afterLeave = [(''b'', 1)]"
  by (simp add: eval_defs)

lemma afterLeave_timers: "timers afterLeave = [RespawnTimer 0]"
  by (simp add: eval_defs)

lemma afterLeave_heap: "map (\<lambda>p. (pid p, health p, maxHealth p)) (heap afterLeave) = [(''a'', 0, 100), (''b'', 100, 100)]"
  by (simp add: eval_defs)

lemma afterLeave_object:
  "0 < length (heap afterLeave)" "pid (heap afterLeave ! 0) = ''a''" "maxHealth (heap afterLeave ! 0) = 100"
proof -
  have "length (map (\<lambda>p. (pid p, health p, maxHealth p)) (heap afterLeave)) = 2"
    unfolding afterLeave_heap by simp
  then have len: "length (heap afterLeave) = 2"
    by simp
  then show "0 < length (heap afterLeave)" by simp
  from len have "map (\<lambda>p. (pid p, health p, maxHealth p)) (heap afterLeave) ! 0
      = (pid (heap afterLeave ! 0), health (heap afterLeave ! 0), maxHealth (heap afterLeave ! 0))"
    by (simp add: nth_map)
  with afterLeave_heap show "pid (heap afterLeave ! 0) = ''a''" "maxHealth (heap afterLeave ! 0) = 100"
    by simp_all
qed

text \<open>
  Claim C1, as amended. A reload or respawn timer makes no lookup: its callback works on
  the player object it captured. When that object is no longer in the player store, the
  store, every object in it and the bullets are unchanged, and the callback still
  publishes its notification: \<^verbatim>\<open>reload-complete\<close> to the room of the departed player's
  id, \<^verbatim>\<open>player-respawned\<close> to all sockets.
\<close>

theorem timer_after_departure:
  assumes "r < length (heap s)" and "r \<notin> snd ` set (players s)"
  shows "players (reloadComplete r s) = players s \<and> bullets (reloadComplete r s) = bullets s
     \<and> (\<forall>e \<in> set (players s). heap (reloadComplete r s) ! snd e = heap s ! snd e)
     \<and> outbox (reloadComplete r s) =
         outbox s @ [(Room (pid (heap s ! r)),
                  ReloadComplete (ammo (heap s ! r) + min (30 - ammo (heap s ! r)) (totalAmmo (heap s ! r)))
                                 (totalAmmo (heap s ! r) - min (30 - ammo (heap s ! r)) (totalAmmo (heap s ! r))))]
     \<and> players (respawnPlayer r rx rz s) = players s \<and> bullets (respawnPlayer r rx rz s) = bullets s
     \<and> (\<forall>e \<in> set (players s). heap (respawnPlayer r rx rz s) ! snd e = heap s ! snd e)
     \<and> outbox (respawnPlayer r rx rz s) =
         outbox s @ [(Everyone, PlayerRespawned (pid (heap s ! r))
                        (Vec3 ((Fin rx - Fin 0.5) * Fin 50) (lit 1.8) ((Fin rz - Fin 0.5) * Fin 50))
                        (maxHealth (heap s ! r)))]"
proof -
  have other: "\<forall>e \<in> set (players s). r \<noteq> snd e"
    using assms(2) by auto
  show ?thesis
    using assms(1) other
    by (simp add: reloadComplete_fields reloadComplete_outbox respawnPlayer_fields respawnPlayer_outbox
          nth_list_update)
qed

theorem timer_after_departure_witness:
  "0 < length (heap afterLeave) \<and> 0 \<notin> snd ` set (players afterLeave)
   \<and> getPlayer afterLeave ''a'' = None
   \<and> players (respawnPlayer 0 (1/2) (1/2) afterLeave) = [(''b'', 1)]
   \<and> outbox (respawnPlayer 0 (1/2) (1/2) afterLeave) =
        outbox afterLeave @ [(Everyone, PlayerRespawned ''a'' (Vec3 (Fin 0) (lit 1.8) (Fin 0)) 100)]"
proof -
  have h: "0 < length (heap afterLeave)" by (rule afterLeave_object)
  have n: "0 \<notin> snd ` set (players afterLeave)" by (simp add: afterLeave_players)
  from timer_after_departure[OF h n, of "1/2" "1/2"] show ?thesis
    using h n by (simp add: afterLeave_players afterLeave_object getPlayer_def)
qed

text \<open>
  Claim C1 as stated fails: player \<open>a\<close> is killed and disconnects; the respawn timer
  then fires and publishes \<^verbatim>\<open>player-respawned\<close> for \<open>a\<close> to everyone.
\<close>

theorem timer_after_departure_counterexample:
  "getPlayer afterLeave ''a'' = None \<and> timers afterLeave = [RespawnTimer 0]
   \<and> outbox (fireTimer 0 (1/2) (1/2) afterLeave) =
        outbox afterLeave @ [(Everyone, PlayerRespawned ''a'' (Vec3 (Fin 0) (lit 1.8) (Fin 0)) 100)]"
proof -
  have "fireTimer 0 (1/2) (1/2) afterLeave = respawnPlayer 0 (1/2) (1/2) (afterLeave\<lparr>timers := []\<rparr>)"
    by (simp add: fireTimer_def afterLeave_timers)
  moreover have "outbox (respawnPlayer 0 (1/2) (1/2) (afterLeave\<lparr>timers := []\<rparr>)) =
        outbox afterLeave @ [(Everyone, PlayerRespawned ''a'' (Vec3 (Fin 0) (lit 1.8) (Fin 0)) 100)]"
    using afterLeave_object by (simp add: respawnPlayer_outbox)
  ultimately show ?thesis
    by (simp add: afterLeave_players afterLeave_timers getPlayer_def)
qed

section \<open>Projectile motion\<close>

lemma moveBullet_Fin:
  assumes "speed b = Fin 50" and "b_position b = Vec3 (Fin x) (Fin y) (Fin z)"
    and "direction b = Vec3 (Fin dx) (Fin dy) (Fin dz)"
  shows "b_position (moveBullet b) =
           Vec3 (Fin x + Fin dx * Fin 50 * lit 0.016) (Fin y + Fin dy * Fin 50 * lit 0.016)
                (Fin z + Fin dz * Fin 50 * lit 0.016)"
  using assms by (simp add: moveBullet_def deltaTime_def)

lemma oneShot_bullets:
  "bullets oneShot = [(BulletId ''a'' 1000 0, newBullet ''a'' aimed 1000 1000 0)]"
  by (simp add: eval_defs)

text \<open>
  Claim C3, as amended. \<^verbatim>\<open>updateBullets\<close> keeps the bullets that have not expired and
  advances the position of each by direction \<open>\<times>\<close> speed \<open>\<times>\<close> \<^verbatim>\<open>deltaTime\<close>, computed in
  double arithmetic, where \<^verbatim>\<open>deltaTime\<close> is the constant 0.016 of the code; the clock
  \<open>now\<close> of the tick plays no part in the advance. With speed 50 each component moves by
  its direction component \<open>\<times>\<close> 50 \<open>\<times>\<close> 0.016.
\<close>

theorem updateBullets_advance:
  "bullets (updateBullets now s) =
     map (\<lambda>(k, b). (k, b\<lparr>b_position :=
            Vec3 (vec_x (b_position b) + vec_x (direction b) * speed b * lit 0.016)
                 (vec_y (b_position b) + vec_y (direction b) * speed b * lit 0.016)
                 (vec_z (b_position b) + vec_z (direction b) * speed b * lit 0.016)\<rparr>))
       (filter (\<lambda>(k, b). \<not> expired now b) (bullets s))
   \<and> (speed b = Fin 50 \<and> b_position b = Vec3 (Fin x) (Fin y) (Fin z)
        \<and> direction b = Vec3 (Fin dx) (Fin dy) (Fin dz)
      \<longrightarrow> b_position (moveBullet b) =
           Vec3 (Fin x + Fin dx * Fin 50 * lit 0.016) (Fin y + Fin dy * Fin 50 * lit 0.016)
                (Fin z + Fin dz * Fin 50 * lit 0.016))"
  using moveBullet_Fin[of b x y z dx dy dz]
  by (simp add: moveBullet_def deltaTime_def)

theorem updateBullets_advance_witness:
  "map (\<lambda>e. b_position (snd e)) (bullets (updateBullets 1016 oneShot)) = [Vec3 (lit 0.8) (Fin 0) (Fin 0)]
   \<and> map (\<lambda>e. b_position (snd e)) (bullets (updateBullets 2016 oneShot)) = [Vec3 (lit 0.8) (Fin 0) (Fin 0)]
   \<and> b_position (moveBullet (newBullet ''a'' aimed 1000 1000 0)) = Vec3 (lit 0.8) (Fin 0) (Fin 0)"
  using updateBullets_advance[of 1016 oneShot "newBullet ''a'' aimed 1000 1000 0" 0 0 0 1 0 0]
        updateBullets_advance[of 2016 oneShot "newBullet ''a'' aimed 1000 1000 0" 0 0 0 1 0 0]
  by (simp add: oneShot_bullets newBullet_def aimed_def expired_def)

text \<open>
  Claim C3 as stated fails: a bullet at the origin with direction \<open>(1, 0, 0)\<close> and speed 50
  is, after one tick, at the double \<open>0.8\<close>, which is not \<open>50 \<times> (1/60)\<close>.
\<close>

theorem updateBullets_advance_counterexample:
  "map (\<lambda>e. b_position (snd e)) (bullets oneShot) = [Vec3 (Fin 0) (Fin 0) (Fin 0)]
   \<and> map (\<lambda>e. direction (snd e)) (bullets oneShot) = [Vec3 (Fin 1) (Fin 0) (Fin 0)]
   \<and> map (\<lambda>e. speed (snd e)) (bullets oneShot) = [Fin 50]
   \<and> map (\<lambda>e. b_position (snd e)) (bullets (updateGameState 1016 oneShot)) = [Vec3 (lit 0.8) (Fin 0) (Fin 0)]
   \<and> lit 0.8 \<noteq> Fin 0 + Fin 1 * Fin 50 * (Fin 1 / Fin 60)"
proof -
  have a: "Fin 1 * Fin 50 = Fin 50"
    by simp
  have c: "Fin 0 + Fin (7505999378950827 / 2 ^ 53) = Fin (7505999378950827 / 2 ^ 53)"
    using fround_dyadic[of 7505999378950827 53] by simp
  have "Fin 0 + Fin 1 * Fin 50 * (Fin 1 / Fin 60) = Fin (7505999378950827 / 2 ^ 53)"
    by (simp only: a sixtieth_times_50 c)
  then have "lit 0.8 \<noteq> Fin 0 + Fin 1 * Fin 50 * (Fin 1 / Fin 60)"
    by (simp add: lit_def fround_08)
  then show ?thesis
    by (simp add: eval_defs)
qed

section \<open>Disconnection\<close>

lemma handleDisconnect_present:
  assumes "getPlayer s socket = Some r"
  shows "handleDisconnect socket s =
           emit (Others socket) (PlayerLeft socket)
            (s\<lparr>bullets := filter (\<lambda>(bulletId, bullet). playerId bullet \<noteq> socket) (bullets s),
               players := AList.delete socket (players s)\<rparr>)"
  using assms by (simp add: handleDisconnect_def)

lemma crossfire_players: "players crossfire = [(''a'', 0), (''b'', 1)]"
  by (simp add: eval_defs)

lemma crossfire_bullets:
  "bullets crossfire = [(BulletId ''a'' 1000 0, newBullet ''a'' aimed 1000 1000 0),
                        (BulletId ''b'' 1050 0, newBullet ''b'' aimed 1050 1050 0)]"
  by (simp add: eval_defs)

text \<open>
  Claim C10. When a player with a record in the store disconnects, the handler removes
  that record and deletes every bullet whose owner is that player. The entries of the
  other players, every player object, the bullets of the other players (each as it was,
  in the same order) and the pending timers are unchanged, and \<^verbatim>\<open>player-left\<close> goes to
  the other sockets. Without a record the handler does nothing.
\<close>

theorem handleDisconnect_frame:
  "(getPlayer s socket = Some r \<longrightarrow>
      players (handleDisconnect socket s) = filter (\<lambda>e. fst e \<noteq> socket) (players s)
      \<and> getPlayer (handleDisconnect socket s) socket = None
      \<and> (\<forall>other. other \<noteq> socket \<longrightarrow> getPlayer (handleDisconnect socket s) other = getPlayer s other)
      \<and> heap (handleDisconnect socket s) = heap s
      \<and> bullets (handleDisconnect socket s) = filter (\<lambda>e. playerId (snd e) \<noteq> socket) (bullets s)
      \<and> timers (handleDisconnect socket s) = timers s
      \<and> outbox (handleDisconnect socket s) = outbox s @ [(Others socket, PlayerLeft socket)])
   \<and> (getPlayer s socket = None \<longrightarrow> handleDisconnect socket s = s)"
proof (intro conjI impI)
  assume g: "getPlayer s socket = Some r"
  note eq = handleDisconnect_present[OF g]
  have f1: "(\<lambda>(k, v). k \<noteq> socket) = (\<lambda>e. fst e \<noteq> socket)" by (auto simp: fun_eq_iff)
  have f1': "(\<lambda>(k, v). socket \<noteq> k) = (\<lambda>e. fst e \<noteq> socket)" by (auto simp: fun_eq_iff)
  have f2: "(\<lambda>(bulletId, bullet). playerId bullet \<noteq> socket) = (\<lambda>e. playerId (snd e) \<noteq> socket)"
    by (auto simp: fun_eq_iff)
  show "players (handleDisconnect socket s) = filter (\<lambda>e. fst e \<noteq> socket) (players s)"
    by (simp add: eq AList.delete_eq f1 f1')
  show "getPlayer (handleDisconnect socket s) socket = None"
    by (simp add: eq getPlayer_def AList.delete_conv')
  show "\<forall>other. other \<noteq> socket \<longrightarrow> getPlayer (handleDisconnect socket s) other = getPlayer s other"
    by (simp add: eq getPlayer_def AList.delete_conv')
  show "heap (handleDisconnect socket s) = heap s" by (simp add: eq)
  show "bullets (handleDisconnect socket s) = filter (\<lambda>e. playerId (snd e) \<noteq> socket) (bullets s)"
    by (simp add: eq f2)
  show "timers (handleDisconnect socket s) = timers s" by (simp add: eq)
  show "outbox (handleDisconnect socket s) = outbox s @ [(Others socket, PlayerLeft socket)]"
    by (simp add: eq)
next
  assume "getPlayer s socket = None"
  then show "handleDisconnect socket s = s" by (simp add: handleDisconnect_def)
qed

theorem handleDisconnect_frame_witness:
  "getPlayer crossfire ''a'' = Some 0
   \<and> players (handleDisconnect ''a'' crossfire) = [(''b'', 1)]
   \<and> heap (handleDisconnect ''a'' crossfire) = heap crossfire
   \<and> bullets crossfire = [(BulletId ''a'' 1000 0, newBullet ''a'' aimed 1000 1000 0),
                           (BulletId ''b'' 1050 0, newBullet ''b'' aimed 1050 1050 0)]
   \<and> bullets (handleDisconnect ''a'' crossfire) = [(BulletId ''b'' 1050 0, newBullet ''b'' aimed 1050 1050 0)]"
proof -
  have g: "getPlayer crossfire ''a'' = Some 0"
    by (simp add: getPlayer_def crossfire_players)
  from handleDisconnect_frame[of crossfire "''a''" 0] g show ?thesis
    by (simp add: crossfire_players crossfire_bullets newBullet_def)
qed

section \<open>Firing\<close>

lemma fireAccepted_mayFire: "fireAccepted s socket now \<Longrightarrow> mayFire s socket now"
  by (auto simp: fireAccepted_def mayFire_def split: option.splits)



lemma lobby_fire:
  "map (\<lambda>p. (ammo p, lastFireTime p)) (heap (handlePlayerFire ''a'' aimed 1000 1000 0 lobby)) = [(29, Some 1000)]"
  "bullets (handlePlayerFire ''a'' aimed 1000 1000 0 lobby)
     = [(BulletId ''a'' 1000 0, newBullet ''a'' aimed 1000 1000 0)]"
  by (simp_all add: eval_defs)

lemma lobby_accepted: "fireAccepted lobby ''a'' 1000"
  by (simp add: eval_defs fireAccepted_def)

text \<open>
  Claim C6. A fire request whose preconditions fail (no such player, health not above 0,
  reloading, no ammunition, or less than 100 ms since the player's last fire) leaves the
  whole server state as it was, so a request that changes anything met them all. In a
  reachable state, a request the handler accepts takes one round and stores the new
  bullet, and a second request of the same player less than 100 ms later is rejected:
  it changes nothing, neither ammunition nor bullets.
\<close>

theorem fire_preconditions:
  "(\<not> mayFire s socket now \<longrightarrow> handlePlayerFire socket data now idTime rnd s = s)
   \<and> (fireAccepted s socket now \<longrightarrow> mayFire s socket now)
   \<and> (reachable s \<and> fireAccepted s socket now \<and> now2 - now < 100 \<longrightarrow>
        (\<exists>r. getPlayer s socket = Some r
           \<and> ammo (heap (handlePlayerFire socket data now idTime rnd s) ! r) = ammo (heap s ! r) - 1
           \<and> lastFireTime (heap (handlePlayerFire socket data now idTime rnd s) ! r) = Some now)
        \<and> bullets (handlePlayerFire socket data now idTime rnd s)
             = limitBullets (AList.update (BulletId socket idTime rnd)
                 (newBullet socket data now idTime rnd) (bullets s))
        \<and> \<not> mayFire (handlePlayerFire socket data now idTime rnd s) socket now2
        \<and> handlePlayerFire socket data2 now2 idTime2 rnd2 (handlePlayerFire socket data now idTime rnd s)
             = handlePlayerFire socket data now idTime rnd s)"
proof (intro conjI impI)
  assume "\<not> mayFire s socket now"
  then show "handlePlayerFire socket data now idTime rnd s = s"
    by (rule handlePlayerFire_rejected)
next
  assume "fireAccepted s socket now"
  then show "mayFire s socket now" by (rule fireAccepted_mayFire)
next
  assume a: "reachable s \<and> fireAccepted s socket now \<and> now2 - now < 100"
  then have inv: "serverInv s" and acc: "fireAccepted s socket now" and near: "now2 - now < 100"
    by (simp_all add: reachable_serverInv)
  from acc obtain r where g: "getPlayer s socket = Some r"
    by (auto simp: fireAccepted_def split: option.splits)
  from getPlayer_ref[OF inv g] have r: "r < length (heap s)" by simp
  note eq = handlePlayerFire_accepted[OF g r acc, of data idTime rnd]
  have am: "ammo (heap (handlePlayerFire socket data now idTime rnd s) ! r) = ammo (heap s ! r) - 1"
    and lf: "lastFireTime (heap (handlePlayerFire socket data now idTime rnd s) ! r) = Some now"
    using r by (simp_all add: eq)
  have g1: "getPlayer (handlePlayerFire socket data now idTime rnd s) socket = Some r"
    using g by (simp add: eq getPlayer_def)
  show "\<exists>r. getPlayer s socket = Some r
           \<and> ammo (heap (handlePlayerFire socket data now idTime rnd s) ! r) = ammo (heap s ! r) - 1
           \<and> lastFireTime (heap (handlePlayerFire socket data now idTime rnd s) ! r) = Some now"
    using g am lf by blast
  show "bullets (handlePlayerFire socket data now idTime rnd s)
             = limitBullets (AList.update (BulletId socket idTime rnd)
                 (newBullet socket data now idTime rnd) (bullets s))"
    by (simp add: eq)
  show no: "\<not> mayFire (handlePlayerFire socket data now idTime rnd s) socket now2"
    using g1 lf near by (simp add: mayFire_def)
  show "handlePlayerFire socket data2 now2 idTime2 rnd2 (handlePlayerFire socket data now idTime rnd s)
             = handlePlayerFire socket data now idTime rnd s"
    using no by (rule handlePlayerFire_rejected)
qed

theorem fire_preconditions_witness:
  "reachable lobby \<and> fireAccepted lobby ''a'' 1000 \<and> mayFire lobby ''a'' 1000
   \<and> map (\<lambda>p. (ammo p, lastFireTime p)) (heap (handlePlayerFire ''a'' aimed 1000 1000 0 lobby)) = [(29, Some 1000)]
   \<and> bullets (handlePlayerFire ''a'' aimed 1000 1000 0 lobby)
        = [(BulletId ''a'' 1000 0, newBullet ''a'' aimed 1000 1000 0)]
   \<and> handlePlayerFire ''a'' shot 1099 1099 0 (handlePlayerFire ''a'' aimed 1000 1000 0 lobby)
        = handlePlayerFire ''a'' aimed 1000 1000 0 lobby"
proof -
  have r: "reachable lobby" unfolding lobby_def by (rule reachable_run)
  from fire_preconditions[of lobby "''a''" 1000 aimed 1000 0 1099 shot 1099 0] r lobby_accepted
  show ?thesis
    by (simp add: lobby_fire)
qed

section \<open>Collisions\<close>


lemma handlePlayerHit_players [simp]: "players (handlePlayerHit b hit s) = players s"
  by (simp add: handlePlayerHit_def Let_def split: option.splits)

lemma handlePlayerHit_bullets [simp]: "bullets (handlePlayerHit b hit s) = bullets s"
  by (simp add: handlePlayerHit_def Let_def split: option.splits)

lemma handlePlayerHit_length [simp]: "length (heap (handlePlayerHit b hit s)) = length (heap s)"
  by (simp add: handlePlayerHit_def Let_def split: option.splits)








lemma standoff_players: "players standoff = [(''a'', 0), (''b'', 1), (''c'', 2)]"
  by (simp add: eval_defs)






section \<open>Reloading\<close>

lemma upt29: "[0..<29] = [0, 1, 2, 3, 4, 5, 6, 7, 8, 9, 10, 11, 12, 13, 14, 15, 16, 17, 18, 19,
                          20, 21, 22, 23, 24, 25, 26, 27, 28 :: nat]"
  by code_simp

lemma lastRound_status:
  "playerStatus lastRound = [(''a'', 0, ''a'', 100, False, 1, 120, Some 3800)]"
  by (simp add: eval_defs upt29 playerStatus_def)

lemma lastRound_player:
  "getPlayer lastRound ''a'' = Some 0" "health (heap lastRound ! 0) = 100"
  "\<not> isReloading (heap lastRound ! 0)" "ammo (heap lastRound ! 0) = 1"
  "totalAmmo (heap lastRound ! 0) = 120" "lastFireTime (heap lastRound ! 0) = Some 3800"
proof -
  from lastRound_status have p: "players lastRound = [(''a'', 0)]"
    by (auto simp: playerStatus_def map_eq_Cons_conv)
  from lastRound_status show "getPlayer lastRound ''a'' = Some 0" "health (heap lastRound ! 0) = 100"
    "\<not> isReloading (heap lastRound ! 0)" "ammo (heap lastRound ! 0) = 1"
    "totalAmmo (heap lastRound ! 0) = 120" "lastFireTime (heap lastRound ! 0) = Some 3800"
    by (simp_all add: playerStatus_def p getPlayer_def)
qed

text \<open>
  Claim C7. In a reachable state, an accepted fire of a player with one round left and a
  reserve above 0 leaves the ammunition at 0, sets the reloading flag and schedules the
  reload completion on the player's object. When a reload completion runs on a player
  object, \<open>min (30 - ammo) reserve\<close> rounds move from the reserve to the magazine, the
  flag is cleared, and one \<^verbatim>\<open>reload-complete\<close> with the new counts is published, to the
  room of that player's id only; from ammo 0 and reserve 120 the result is 30 and 90.
\<close>

theorem last_round_reload:
  "(reachable s \<and> getPlayer s socket = Some r \<and> fireAccepted s socket now
      \<and> ammo (heap s ! r) = 1 \<and> totalAmmo (heap s ! r) > 0 \<longrightarrow>
      isReloading (heap (handlePlayerFire socket data now idTime rnd s) ! r)
      \<and> ammo (heap (handlePlayerFire socket data now idTime rnd s) ! r) = 0
      \<and> totalAmmo (heap (handlePlayerFire socket data now idTime rnd s) ! r) = totalAmmo (heap s ! r)
      \<and> pid (heap (handlePlayerFire socket data now idTime rnd s) ! r) = socket
      \<and> timers (handlePlayerFire socket data now idTime rnd s) = timers s @ [ReloadTimer r])
   \<and> (r < length (heap t) \<longrightarrow>
      ammo (heap (reloadComplete r t) ! r)
        = ammo (heap t ! r) + min (30 - ammo (heap t ! r)) (totalAmmo (heap t ! r))
      \<and> totalAmmo (heap (reloadComplete r t) ! r)
        = totalAmmo (heap t ! r) - min (30 - ammo (heap t ! r)) (totalAmmo (heap t ! r))
      \<and> \<not> isReloading (heap (reloadComplete r t) ! r)
      \<and> outbox (reloadComplete r t) =
          outbox t @ [(Room (pid (heap t ! r)),
                       ReloadComplete (ammo (heap (reloadComplete r t) ! r))
                                      (totalAmmo (heap (reloadComplete r t) ! r)))]
      \<and> (ammo (heap t ! r) = 0 \<and> totalAmmo (heap t ! r) = 120 \<longrightarrow>
           ammo (heap (reloadComplete r t) ! r) = 30 \<and> totalAmmo (heap (reloadComplete r t) ! r) = 90))"
proof (intro conjI impI)
  assume a: "reachable s \<and> getPlayer s socket = Some r \<and> fireAccepted s socket now
      \<and> ammo (heap s ! r) = 1 \<and> totalAmmo (heap s ! r) > 0"
  then have inv: "serverInv s" and g: "getPlayer s socket = Some r" and acc: "fireAccepted s socket now"
    and one: "ammo (heap s ! r) = 1" and res: "totalAmmo (heap s ! r) > 0"
    by (simp_all add: reachable_serverInv)
  from getPlayer_ref[OF inv g] have r: "r < length (heap s)" and p: "pid (heap s ! r) = socket"
    by simp_all
  note eq = handlePlayerFire_accepted[OF g r acc, of data idTime rnd]
  show "isReloading (heap (handlePlayerFire socket data now idTime rnd s) ! r)"
    "ammo (heap (handlePlayerFire socket data now idTime rnd s) ! r) = 0"
    "totalAmmo (heap (handlePlayerFire socket data now idTime rnd s) ! r) = totalAmmo (heap s ! r)"
    "pid (heap (handlePlayerFire socket data now idTime rnd s) ! r) = socket"
    "timers (handlePlayerFire socket data now idTime rnd s) = timers s @ [ReloadTimer r]"
    using r one res p by (simp_all add: eq)
next
  assume r: "r < length (heap t)"
  show "ammo (heap (reloadComplete r t) ! r)
        = ammo (heap t ! r) + min (30 - ammo (heap t ! r)) (totalAmmo (heap t ! r))"
    "totalAmmo (heap (reloadComplete r t) ! r)
        = totalAmmo (heap t ! r) - min (30 - ammo (heap t ! r)) (totalAmmo (heap t ! r))"
    "\<not> isReloading (heap (reloadComplete r t) ! r)"
    using r by (simp_all add: reloadComplete_fields)
  show "outbox (reloadComplete r t) =
          outbox t @ [(Room (pid (heap t ! r)),
                       ReloadComplete (ammo (heap (reloadComplete r t) ! r))
                                      (totalAmmo (heap (reloadComplete r t) ! r)))]"
    using r by (simp add: reloadComplete_fields reloadComplete_outbox)
  assume "ammo (heap t ! r) = 0 \<and> totalAmmo (heap t ! r) = 120"
  then show "ammo (heap (reloadComplete r t) ! r) = 30" "totalAmmo (heap (reloadComplete r t) ! r) = 90"
    using r by (simp_all add: reloadComplete_fields)
qed

theorem last_round_reload_witness:
  "reachable lastRound \<and> getPlayer lastRound ''a'' = Some 0 \<and> fireAccepted lastRound ''a'' 3900
   \<and> ammo (heap lastRound ! 0) = 1 \<and> totalAmmo (heap lastRound ! 0) = 120
   \<and> isReloading (heap (handlePlayerFire ''a'' aimed 3900 3900 0 lastRound) ! 0)
   \<and> ammo (heap (handlePlayerFire ''a'' aimed 3900 3900 0 lastRound) ! 0) = 0
   \<and> ammo (heap (reloadComplete 0 (handlePlayerFire ''a'' aimed 3900 3900 0 lastRound)) ! 0) = 30
   \<and> totalAmmo (heap (reloadComplete 0 (handlePlayerFire ''a'' aimed 3900 3900 0 lastRound)) ! 0) = 90
   \<and> \<not> isReloading (heap (reloadComplete 0 (handlePlayerFire ''a'' aimed 3900 3900 0 lastRound)) ! 0)
   \<and> outbox (reloadComplete 0 (handlePlayerFire ''a'' aimed 3900 3900 0 lastRound))
        = outbox (handlePlayerFire ''a'' aimed 3900 3900 0 lastRound) @ [(Room ''a'', ReloadComplete 30 90)]"
proof -
  have re: "reachable lastRound" unfolding lastRound_def by (rule reachable_run)
  have acc: "fireAccepted lastRound ''a'' 3900"
    by (simp add: fireAccepted_def lastRound_player)
  have inv: "serverInv lastRound" using re by (rule reachable_serverInv)
  have r0: "0 < length (heap lastRound)"
    by (rule getPlayer_ref(1)[OF inv lastRound_player(1)])
  have len: "0 < length (heap (handlePlayerFire ''a'' aimed 3900 3900 0 lastRound))"
    using r0 by (simp add: handlePlayerFire_accepted[OF lastRound_player(1) r0 acc])
  from last_round_reload[where s=lastRound and socket="''a''" and r=0 and now=3900 and data=aimed
         and idTime=3900 and rnd=0 and t="handlePlayerFire ''a'' aimed 3900 3900 0 lastRound"]
  show ?thesis
    using re acc len by (simp add: lastRound_player)
qed

section \<open>The capacity of the bullet store\<close>













section \<open>Properties of the input validator\<close>

lemma getProp_JNum_truthy: "getProp p k = JNum a \<Longrightarrow> truthy p"
  by (cases p) auto

lemma typeof_number_iff: "typeof v = ''number'' \<longleftrightarrow> (\<exists>n. v = JNum n)"
  by (cases v) auto

lemma isValidPosition_numbers:
  "isValidPosition p \<longleftrightarrow>
     (\<exists>a b. getProp p ''x'' = JNum a \<and> getProp p ''z'' = JNum b
        \<and> \<not> \<bar>a\<bar> > Fin 1000 \<and> \<not> \<bar>b\<bar> > Fin 1000)"
  unfolding isValidPosition_def
  by (auto simp: typeof_number_iff dest: getProp_JNum_truthy)

lemma specValidPosition_iff:
  "specValidPosition p \<longleftrightarrow>
     (\<exists>a b. getProp p ''x'' = JNum (Fin a) \<and> getProp p ''z'' = JNum (Fin b)
        \<and> \<bar>a\<bar> \<le> 1000 \<and> \<bar>b\<bar> \<le> 1000)"
  by (cases "getProp p ''x''"; cases "getProp p ''z''")
     (auto simp: specValidPosition_def split: jsnum.splits)

lemma isValidPosition_spec:
  assumes "getProp p ''x'' \<noteq> JNum NaN" and "getProp p ''z'' \<noteq> JNum NaN"
  shows "isValidPosition p = specValidPosition p"
proof (cases "\<exists>a b. getProp p ''x'' = JNum (Fin a) \<and> getProp p ''z'' = JNum (Fin b)")
  case True
  then obtain a b where "getProp p ''x'' = JNum (Fin a)" "getProp p ''z'' = JNum (Fin b)"
    by blast
  then show ?thesis
    by (simp add: isValidPosition_numbers specValidPosition_def not_less)
next
  case False
  have "\<not> isValidPosition p"
  proof
    assume "isValidPosition p"
    then obtain a b where ab: "getProp p ''x'' = JNum a" "getProp p ''z'' = JNum b"
      unfolding isValidPosition_numbers by blast
    with assms have "a \<noteq> NaN" "b \<noteq> NaN" by auto
    then obtain a' b' where "a = Fin a'" "b = Fin b'"
      by (cases a; cases b) auto
    with ab False show False by blast
  qed
  moreover have "\<not> specValidPosition p"
    using False unfolding specValidPosition_iff by blast
  ultimately show ?thesis by simp
qed

text \<open>
  Claim C5, as amended. \<^verbatim>\<open>isValidPosition\<close> returns true if and only if \<open>x\<close> and \<open>z\<close>
  both have type number and neither \<open>|x| > 1000\<close> nor \<open>|z| > 1000\<close> holds. On every
  position whose \<open>x\<close> and \<open>z\<close> are not \<^verbatim>\<open>NaN\<close> this is the specification's
  validation: a position inside the bounds passes, one with a missing or non-numeric
  coordinate or a coordinate outside the bounds fails.
\<close>

theorem isValidPosition_iff:
  "(isValidPosition p \<longleftrightarrow>
      (\<exists>a b. getProp p ''x'' = JNum a \<and> getProp p ''z'' = JNum b
         \<and> \<not> \<bar>a\<bar> > Fin 1000 \<and> \<not> \<bar>b\<bar> > Fin 1000))
   \<and> (getProp p ''x'' \<noteq> JNum NaN \<and> getProp p ''z'' \<noteq> JNum NaN
        \<longrightarrow> isValidPosition p = specValidPosition p)"
  using isValidPosition_numbers[of p] isValidPosition_spec[of p] by blast

theorem isValidPosition_iff_witness:
  "isValidPosition (JObj [(''x'', JNum (Fin 10)), (''y'', JNum (Fin 1.8)), (''z'', JNum (Fin (- 1000)))])
   \<and> specValidPosition (JObj [(''x'', JNum (Fin 10)), (''y'', JNum (Fin 1.8)), (''z'', JNum (Fin (- 1000)))])
   \<and> \<not> isValidPosition (JObj [(''x'', JNum (Fin 1000.5)), (''z'', JNum (Fin 0))])
   \<and> \<not> isValidPosition (JObj [(''x'', JStr ''10''), (''z'', JNum (Fin 0))])
   \<and> \<not> isValidPosition (JObj [(''x'', JNum (Fin 0))])
   \<and> \<not> isValidPosition JUndefined"
  using isValidPosition_iff[of "JObj [(''x'', JNum (Fin 10)), (''y'', JNum (Fin 1.8)), (''z'', JNum (Fin (- 1000)))]"]
        isValidPosition_iff[of "JObj [(''x'', JNum (Fin 1000.5)), (''z'', JNum (Fin 0))]"]
        isValidPosition_iff[of "JObj [(''x'', JStr ''10''), (''z'', JNum (Fin 0))]"]
        isValidPosition_iff[of "JObj [(''x'', JNum (Fin 0))]"]
        isValidPosition_iff[of JUndefined]
  by (simp add: specValidPosition_def)

text \<open>
  Claim C5 as stated fails on a \<^verbatim>\<open>NaN\<close> coordinate: \<^verbatim>\<open>typeof NaN\<close> is
  \<^verbatim>\<open>'number'\<close> and \<^verbatim>\<open>Math.abs(NaN) > 1000\<close> is false, so the position passes.
\<close>

theorem isValidPosition_NaN_counterexample:
  "isValidPosition (JObj [(''x'', JNum NaN), (''z'', JNum (Fin 0))])
   \<and> \<not> specValidPosition (JObj [(''x'', JNum NaN), (''z'', JNum (Fin 0))])"
  by (simp add: isValidPosition_def specValidPosition_def)












end
